theory Spec2Isabelle
  imports Complex_Main "HOL-Library.AList"
begin

section \<open>Errors and results\<close>

text \<open>
  The exceptions that the booking script can raise, as values. \<open>ValueError\<close> and
  \<open>KeyError\<close> carry their argument (the message, the missing key), since a caller can
  read it. \<open>PlaywrightError\<close> stands for any error the browser automation raises
  when a page does not offer the control an action needs.
\<close>

datatype error =
    ConnectionError
  | ValueError string
  | KeyError string
  | StopIteration
  | AttributeError
  | IndexError
  | PlaywrightError

section \<open>Time-slot labels\<close>

text \<open>
  Python's format specification \<open>02d\<close>: the decimal digits of the integer, a minus sign
  for a negative one, and zeros between sign and digits up to a total width of two.
\<close>

definition digit_char :: "nat \<Rightarrow> char" where
  "digit_char d = ''0123456789'' ! d"

fun decimal :: "nat \<Rightarrow> string" where
  "decimal n = (if n < 10 then [digit_char n] else decimal (n div 10) @ [digit_char (n mod 10)])"

declare decimal.simps [simp del]

definition format_02d :: "int \<Rightarrow> string" where
  "format_02d i =
     (let sign = (if i < 0 then ''-'' else '''');
          digits = decimal (nat \<bar>i\<bar>)
      in sign @ replicate (2 - length sign - length digits) (CHR ''0'') @ digits)"

text \<open>\<^verbatim>\<open>generate_time_slot\<close>: \<^verbatim>\<open>f"{hour:02d}:00-{(hour+1):02d}:00"\<close>.\<close>

definition generate_time_slot :: "int \<Rightarrow> string" where
  "generate_time_slot hour = format_02d hour @ '':00-'' @ format_02d (hour + 1) @ '':00''"

text \<open>
  The label as the specification writes it for a valid hour: two decimal digits of the
  hour, \<open>:00-\<close>, two decimal digits of the next hour, \<open>:00\<close>.
\<close>

definition two_digits :: "int \<Rightarrow> string" where
  "two_digits h = [digit_char (nat (h div 10)), digit_char (nat (h mod 10))]"

definition timeSlotLabel :: "int \<Rightarrow> string" where
  "timeSlotLabel hour = two_digits hour @ '':00-'' @ two_digits (hour + 1) @ '':00''"

section \<open>The availability map\<close>

text \<open>
  A Python \<open>dict\<close> keeps its keys in insertion order, so it is an association list:
  \<open>map_of\<close> looks a key up, \<open>AList.update\<close> is \<^verbatim>\<open>d[k] = v\<close> (a key already
  present keeps its place, a new one goes to the end). The availability map is three
  dictionaries deep: day name, time-slot label, field, booking link. The outer one is a
  \<^verbatim>\<open>defaultdict(dict)\<close> when \<^verbatim>\<open>fetch_available_slots\<close> built it, and reading a missing
  key of a \<open>defaultdict\<close> stores the default under that key; the flag records which of
  the two the object is.
\<close>

type_synonym 'l field_links = "(string \<times> 'l) list"

type_synonym 'l time_slots = "(string \<times> 'l field_links) list"

record 'l slots =
  defaultdict :: bool
  entries :: "(string \<times> 'l time_slots) list"

text \<open>\<^verbatim>\<open>d[k]\<close> on a plain \<open>dict\<close>.\<close>

definition getitem :: "(string \<times> 'v) list \<Rightarrow> string \<Rightarrow> error + 'v" where
  "getitem d k = (case map_of d k of None \<Rightarrow> Inl (KeyError k) | Some v \<Rightarrow> Inr v)"

text \<open>\<^verbatim>\<open>slots[k]\<close> on the outer map: the value read, and the map afterwards.\<close>

definition slots_getitem :: "'l slots \<Rightarrow> string \<Rightarrow> (error + 'l time_slots) \<times> 'l slots" where
  "slots_getitem s k =
     (case map_of (entries s) k of
        Some v \<Rightarrow> (Inr v, s)
      | None \<Rightarrow>
          if defaultdict s then (Inr [], s\<lparr>entries := entries s @ [(k, [])]\<rparr>)
          else (Inl (KeyError k), s))"

text \<open>\<^verbatim>\<open>next(iter(d))\<close>: the first key, \<open>StopIteration\<close> on an empty dictionary.\<close>

definition next_iter :: "(string \<times> 'v) list \<Rightarrow> error + string" where
  "next_iter d = (case d of [] \<Rightarrow> Inl StopIteration | kv # _ \<Rightarrow> Inr (fst kv))"

text \<open>
  \<^verbatim>\<open>get_booking_link\<close>. The \<^verbatim>\<open>try\<close> block evaluates
  \<^verbatim>\<open>next(iter(slots[day][time]))\<close>; only a \<open>KeyError\<close> is caught and replaced by
  the \<open>ValueError\<close>. The \<^verbatim>\<open>return\<close> reads \<^verbatim>\<open>slots[day][time][first_pitch]\<close> again,
  outside the \<^verbatim>\<open>try\<close>. The second component is the map after the call.
\<close>

definition first_pitch_of :: "'l slots \<Rightarrow> string \<Rightarrow> string \<Rightarrow> (error + string) \<times> 'l slots" where
  "first_pitch_of s day time =
     (let (by_day, s1) = slots_getitem s day
      in (case by_day of
            Inl e \<Rightarrow> Inl e
          | Inr by_time \<Rightarrow>
              (case getitem by_time time of
                 Inl e \<Rightarrow> Inl e
               | Inr by_field \<Rightarrow> next_iter by_field),
          s1))"

definition slot_unavailable :: "string \<Rightarrow> string \<Rightarrow> error" where
  "slot_unavailable day time =
     ValueError (''No slot available on '' @ day @ '' at '' @ time @ [CHR 0x0A])"

definition get_booking_link :: "'l slots \<Rightarrow> string \<Rightarrow> int \<Rightarrow> (error + 'l) \<times> 'l slots" where
  "get_booking_link s day start_time =
     (let time = generate_time_slot start_time;
          (first_pitch, s1) = first_pitch_of s day time
      in case first_pitch of
           Inl e \<Rightarrow>
             (case e of
                KeyError k \<Rightarrow> (Inl (slot_unavailable day time), s1)
              | _ \<Rightarrow> (Inl e, s1))
         | Inr pitch \<Rightarrow>
             (let (by_day, s2) = slots_getitem s1 day
              in (case by_day of
                    Inl e \<Rightarrow> Inl e
                  | Inr by_time \<Rightarrow>
                      (case getitem by_time time of
                         Inl e \<Rightarrow> Inl e
                       | Inr by_field \<Rightarrow> getitem by_field pitch),
                  s2)))"

section \<open>The availability page\<close>

text \<open>
  What \<^verbatim>\<open>fetch_available_slots\<close> reads from the reply to its request: the status
  code, and from the document the parts its queries select. \<open>table_body\<close> is the
  \<^verbatim>\<open>div\<close> of class \<open>table-body-group\<close> (\<open>None\<close> when the page has none), given as its
  \<open>table-row\<close> divisions in document order. Of a row the parser asks for the texts of
  its day headers (class \<open>table-head column-1\<close>) and for its bookable cells (class
  \<open>date bookable\<close>); of a cell for its first anchor (\<open>None\<close> when it has none), and of
  the anchor for the text of its \<open>strong\<close> tag of class \<open>time\<close>, the text of its \<open>span\<close>
  of class \<open>detail\<close> (\<open>None\<close> when the tag is missing) and its \<open>href\<close> attribute
  (\<open>None\<close> when it has none).
\<close>

record link_tag =
  strong_time :: "string option"
  span_detail :: "string option"
  href :: "string option"

record table_row =
  heads :: "string list"
  bookable :: "link_tag option list"

record response =
  status_code :: int
  table_body :: "table_row list option"

text \<open>
  \<^verbatim>\<open>str.strip()\<close>. A \<open>char\<close> of a text stands for the code point of that number, so
  a text of the model is a Python string of code points below 256; \<open>isspace\<close> lists the
  code points below 256 that Python counts as white space, the no-break space (160) and
  the next-line character (133) among them.
\<close>

definition isspace :: "char \<Rightarrow> bool" where
  "isspace c = (c \<in> set [CHR 0x09, CHR 0x0A, CHR 0x0B, CHR 0x0C, CHR 0x0D,
                          CHR 0x1C, CHR 0x1D, CHR 0x1E, CHR 0x1F, CHR '' '',
                          CHR 0x85, CHR 0xA0])"

definition strip :: "string \<Rightarrow> string" where
  "strip s = rev (dropWhile isspace (rev (dropWhile isspace s)))"

text \<open>
  \<^verbatim>\<open>d[k1][k2] = v\<close> on a \<^verbatim>\<open>defaultdict(dict)\<close>: the inner dictionary is the one stored
  under \<open>k1\<close>, or a new empty one stored at the end.
\<close>

definition setitem2 ::
  "(string \<times> (string \<times> 'v) list) list \<Rightarrow> string \<Rightarrow> string \<Rightarrow> 'v \<Rightarrow> (string \<times> (string \<times> 'v) list) list"
where
  "setitem2 d k1 k2 v =
     AList.update k1 (AList.update k2 v (case map_of d k1 of None \<Rightarrow> [] | Some inner \<Rightarrow> inner)) d"

text \<open>
  The loop over the bookable cells of one row, filling \<^verbatim>\<open>time_slots\<close>. A cell without
  an anchor is skipped; \<^verbatim>\<open>.text\<close> of a missing tag is an \<open>AttributeError\<close>, and
  \<^verbatim>\<open>text[-1]\<close> of an empty text an \<open>IndexError\<close>.
\<close>

fun collect_time_slots ::
  "string option time_slots \<Rightarrow> link_tag option list \<Rightarrow> error + string option time_slots"
where
  "collect_time_slots time_slots [] = Inr time_slots"
| "collect_time_slots time_slots (cell # cells) =
     (case cell of
        None \<Rightarrow> collect_time_slots time_slots cells
      | Some link_tag \<Rightarrow>
          (case strong_time link_tag of
             None \<Rightarrow> Inl AttributeError
           | Some time_slot \<Rightarrow>
               (case span_detail link_tag of
                  None \<Rightarrow> Inl AttributeError
                | Some detail \<Rightarrow>
                    if detail = [] then Inl IndexError
                    else collect_time_slots
                           (setitem2 time_slots time_slot [last detail] (href link_tag)) cells)))"

text \<open>The loop that copies the time slots of one row into \<^verbatim>\<open>day_slots[day_name]\<close>.\<close>

definition store_day ::
  "string \<Rightarrow> 'l time_slots \<Rightarrow> (string \<times> 'l time_slots) list \<Rightarrow> (string \<times> 'l time_slots) list"
where
  "store_day day_name time_slots day_slots =
     fold (\<lambda>slot ds. setitem2 ds day_name (fst slot) (snd slot)) time_slots day_slots"

text \<open>
  The loop over the rows, with the loop's two variables \<^verbatim>\<open>day_name\<close> and
  \<^verbatim>\<open>day_slots\<close> as arguments.
\<close>

fun parse_rows ::
  "string \<Rightarrow> (string \<times> string option time_slots) list \<Rightarrow> table_row list
     \<Rightarrow> error + (string \<times> string option time_slots) list"
where
  "parse_rows day_name day_slots [] = Inr day_slots"
| "parse_rows day_name day_slots (row # rows) =
     (if heads row \<noteq> [] then parse_rows (strip (hd (heads row))) day_slots rows
      else if bookable row \<noteq> [] then
        (case collect_time_slots [] (bookable row) of
           Inl e \<Rightarrow> Inl e
         | Inr time_slots \<Rightarrow> parse_rows day_name (store_day day_name time_slots day_slots) rows)
      else parse_rows day_name day_slots rows)"

text \<open>The body of \<^verbatim>\<open>fetch_available_slots\<close> from the status check on.\<close>

definition parse_response :: "response \<Rightarrow> error + string option slots" where
  "parse_response response =
     (if status_code response \<noteq> 200 then Inl ConnectionError
      else case table_body response of
             None \<Rightarrow> Inl (ValueError ''Could not find table containing time slots.'')
           | Some rows \<Rightarrow>
               (case parse_rows ''Montag'' [] rows of
                  Inl e \<Rightarrow> Inl e
                | Inr day_slots \<Rightarrow> Inr \<lparr>defaultdict = True, entries = day_slots\<rparr>))"

text \<open>
  The name that a day header shows, said without the parser's \<^verbatim>\<open>strip\<close>: the text
  of the header without the white space it begins with and without the white space it
  ends with. The day that the specification attributes to a slot row is the name shown
  by the last day header among the rows before it, and the given first day when there
  is none.
\<close>

definition header_name :: "string \<Rightarrow> string" where
  "header_name text =
     (let leading = length (takeWhile isspace text);
          trailing = length (takeWhile isspace (rev text))
      in take (length text - leading - trailing) (drop leading text))"

definition day_context :: "string \<Rightarrow> table_row list \<Rightarrow> string" where
  "day_context first_day rows =
     (case filter (\<lambda>row. heads row \<noteq> []) rows of
        [] \<Rightarrow> first_day
      | h # hs \<Rightarrow> header_name (hd (heads (last (h # hs)))))"

section \<open>The outside world\<close>

text \<open>
  The script talks to three things outside itself: the availability page
  (\<^verbatim>\<open>requests.get\<close>), the clock (\<^verbatim>\<open>time.time\<close>, \<^verbatim>\<open>time.sleep\<close>) and the browser.
  A world holds what they will answer: the replies to the requests still to come, the
  readings of the clock still to come, and the booking site, which decides from all that
  has happened so far (the last event being the browser call at hand) whether that call
  finds what it needs. \<open>trace\<close> is what has happened so far. Replies and readings are
  finite scripts: a program that asks for one more than the script holds is still
  running when the script ends, which is the result \<open>Blocked\<close>. What the script prints
  is not part of the model, and neither is a request that fails without a reply.
\<close>

record person =
  gender :: string
  first_name :: string
  last_name :: string
  address :: string
  city :: string
  postal_code :: string
  status :: string
  student_number :: string
  email :: string
  phone :: string
  birthdate :: string

record bank_account =
  iban :: string
  bic :: string

record manager =
  person1 :: person
  person2 :: person
  bank_details :: bank_account

text \<open>
  The browser calls of \<^verbatim>\<open>fill_form\<close>. \<open>FillPersonalDetails\<close> is one call of
  \<^verbatim>\<open>FormFiller.fill_personal_details\<close> with its person and index, taken as one step.
\<close>

datatype action =
    Launch
  | NewContext
  | NewPage
  | Goto "string option"
  | CheckRole string
  | ClickButton string
  | FillPersonalDetails person "nat option"
  | FillInput string string
  | CheckInput string
  | CloseContext
  | CloseBrowser

datatype event =
    Get string
  | Time real
  | Sleep nat
  | Browser action

record world =
  responses :: "response list"
  clock :: "real list"
  site :: "event list \<Rightarrow> bool"
  trace :: "event list"

datatype 'a result = Done 'a | Raised error | Blocked

definition bind ::
  "'a result \<times> world \<Rightarrow> ('a \<Rightarrow> world \<Rightarrow> 'b result \<times> world) \<Rightarrow> 'b result \<times> world"
where
  "bind rw f =
     (case fst rw of
        Done x \<Rightarrow> f x (snd rw)
      | Raised e \<Rightarrow> (Raised e, snd rw)
      | Blocked \<Rightarrow> (Blocked, snd rw))"

definition requests_get :: "string \<Rightarrow> world \<Rightarrow> response result \<times> world" where
  "requests_get url w =
     (case responses w of
        [] \<Rightarrow> (Blocked, w)
      | r # rs \<Rightarrow> (Done r, w\<lparr>responses := rs, trace := trace w @ [Get url]\<rparr>))"

definition time_time :: "world \<Rightarrow> real result \<times> world" where
  "time_time w =
     (case clock w of
        [] \<Rightarrow> (Blocked, w)
      | t # ts \<Rightarrow> (Done t, w\<lparr>clock := ts, trace := trace w @ [Time t]\<rparr>))"

definition time_sleep :: "nat \<Rightarrow> world \<Rightarrow> world" where
  "time_sleep n w = w\<lparr>trace := trace w @ [Sleep n]\<rparr>"

definition browser :: "action \<Rightarrow> world \<Rightarrow> unit result \<times> world" where
  "browser a w =
     (let tr = trace w @ [Browser a]
      in (if site w tr then Done () else Raised PlaywrightError, w\<lparr>trace := tr\<rparr>))"

fun perform :: "action list \<Rightarrow> world \<Rightarrow> unit result \<times> world" where
  "perform [] w = (Done (), w)"
| "perform (a # as) w = bind (browser a w) (\<lambda>_. perform as)"

section \<open>Fetching, booking, monitoring\<close>

text \<open>\<^verbatim>\<open>fetch_available_slots\<close>: the request, then the parse of its reply.\<close>

definition fetch_available_slots :: "string \<Rightarrow> world \<Rightarrow> string option slots result \<times> world" where
  "fetch_available_slots url w =
     bind (requests_get url w) (\<lambda>response w1.
       case parse_response response of
         Inl e \<Rightarrow> (Raised e, w1)
       | Inr day_slots \<Rightarrow> (Done day_slots, w1))"

text \<open>
  The wait of \<^verbatim>\<open>fill_form\<close> before the final click: read the clock, leave when more
  than the review time has passed since \<open>t0\<close>, otherwise sleep a second and read again.
  Every turn of the loop takes one reading, so the readings left are its measure.
\<close>

function wait_review :: "real \<Rightarrow> int \<Rightarrow> world \<Rightarrow> unit result \<times> world" where
  "wait_review t0 review_time_s w =
     (case time_time w of
        (Done t, w1) \<Rightarrow>
          (let elapsed_time = t - t0
           in if elapsed_time > of_int review_time_s then (Done (), w1)
              else wait_review t0 review_time_s (time_sleep 1 w1))
      | (Raised e, w1) \<Rightarrow> (Raised e, w1)
      | (Blocked, w1) \<Rightarrow> (Blocked, w1))"
  by pat_completeness auto
termination
  by (relation "measure (\<lambda>(t0, review_time_s, w). length (clock w))")
     (auto simp add: time_time_def time_sleep_def split: list.splits)

declare wait_review.simps [simp del]

text \<open>
  \<^verbatim>\<open>fill_form\<close>: the three pages of the booking site, the wait, the final click, ten
  seconds to look at the confirmation, and the browser closed.
\<close>

definition fill_form :: "manager \<Rightarrow> string option \<Rightarrow> int \<Rightarrow> world \<Rightarrow> unit result \<times> world" where
  "fill_form self booking_url review_time_s w =
     bind (perform
             [Launch, NewContext, NewPage,
              Goto booking_url,
              CheckRole ''radio'',
              ClickButton ''weiter zur Buchung'',
              FillPersonalDetails (person1 self) None,
              FillPersonalDetails (person2 self) (Some 2),
              FillInput ''iban'' (iban (bank_details self)),
              FillInput ''bic'' (bic (bank_details self)),
              CheckInput ''BuchBed'',
              ClickButton ''verbindlich anmelden'',
              CheckRole ''checkbox''] w) (\<lambda>_ w1.
     bind (time_time w1) (\<lambda>t0 w2.
     bind (wait_review t0 review_time_s w2) (\<lambda>_ w3.
     bind (browser (ClickButton ''kostenpflichtig buchen'') w3) (\<lambda>_ w4.
     perform [CloseContext, CloseBrowser] (time_sleep 10 w4)))))"

text \<open>\<^verbatim>\<open>attempt_booking\<close>: fetch, resolve, book. No exception is caught here.\<close>

definition attempt_booking ::
  "manager \<Rightarrow> string \<Rightarrow> string \<Rightarrow> int \<Rightarrow> int \<Rightarrow> world \<Rightarrow> unit result \<times> world"
where
  "attempt_booking self slots_url day start_time review_time_s w =
     bind (fetch_available_slots slots_url w) (\<lambda>slots w1.
       case fst (get_booking_link slots day start_time) of
         Inl e \<Rightarrow> (Raised e, w1)
       | Inr booking_url \<Rightarrow> fill_form self booking_url review_time_s w1)"

text \<open>
  The inner loop of \<^verbatim>\<open>monitor_slots\<close>: read the clock, leave when the refresh
  interval has passed since \<open>t0\<close>, otherwise sleep a second and read again.
\<close>

function wait_refresh :: "real \<Rightarrow> int \<Rightarrow> world \<Rightarrow> unit result \<times> world" where
  "wait_refresh t0 refresh_interval_s w =
     (case time_time w of
        (Done t, w1) \<Rightarrow>
          (let elapsed_time = t - t0;
               remaining_time = of_int refresh_interval_s - elapsed_time
           in if remaining_time \<le> 0 then (Done (), w1)
              else wait_refresh t0 refresh_interval_s (time_sleep 1 w1))
      | (Raised e, w1) \<Rightarrow> (Raised e, w1)
      | (Blocked, w1) \<Rightarrow> (Blocked, w1))"
  by pat_completeness auto
termination
  by (relation "measure (\<lambda>(t0, refresh_interval_s, w). length (clock w))")
     (auto simp add: time_time_def time_sleep_def split: list.splits)

declare wait_refresh.simps [simp del]

section \<open>Predicates and example data for the properties\<close>

text \<open>Every time-slot label of a row's dictionary has at least one field.\<close>

definition fields_nonempty :: "(string \<times> 'a list) list \<Rightarrow> bool" where
  "fields_nonempty ts = (\<forall>slot \<in> set ts. snd slot \<noteq> [])"

text \<open>Every day of the map has at least one label, and every label at least one field.\<close>

definition inner_nonempty :: "(string \<times> (string \<times> 'a list) list) list \<Rightarrow> bool" where
  "inner_nonempty ds = (\<forall>d \<in> set ds. snd d \<noteq> [] \<and> fields_nonempty (snd d))"

text \<open>The label is a key of the dictionary that the map holds for the day.\<close>

definition filed :: "string \<Rightarrow> string \<Rightarrow> (string \<times> 'l time_slots) list \<Rightarrow> bool" where
  "filed day time_slot day_slots =
     (\<exists>by_time. map_of day_slots day = Some by_time \<and> time_slot \<in> fst ` set by_time)"

text \<open>
  A page with four rows: a row of two cells before any day header, the header of
  Dienstag with white space around the name, a row without cells, and a row whose
  first cell has no anchor. \<open>example_slots\<close> is the map the parser builds from it.
\<close>

definition example_rows :: "table_row list" where
  "example_rows =
     [\<lparr>heads = [],
        bookable =
          [Some \<lparr>strong_time = Some ''15:00-16:00'', span_detail = Some ''Feld 3'',
                 href = Some ''link-a''\<rparr>,
           Some \<lparr>strong_time = Some ''15:00-16:00'', span_detail = Some ''Feld 1'',
                 href = Some ''link-b''\<rparr>]\<rparr>,
      \<lparr>heads = ['' Dienstag ''], bookable = []\<rparr>,
      \<lparr>heads = [], bookable = []\<rparr>,
      \<lparr>heads = [],
        bookable =
          [None,
           Some \<lparr>strong_time = Some ''08:00-09:00'', span_detail = Some ''Feld 2'',
                 href = Some ''link-c''\<rparr>]\<rparr>]"

definition example_slots :: "string option slots" where
  "example_slots =
     \<lparr>defaultdict = True,
        entries =
          [(''Montag'', [(''15:00-16:00'', [(''3'', Some ''link-a''), (''1'', Some ''link-b'')])]),
           (''Dienstag'', [(''08:00-09:00'', [(''2'', Some ''link-c'')])])]\<rparr>"

definition page_world :: "int \<Rightarrow> world" where
  "page_world code =
     \<lparr>responses = [\<lparr>status_code = code, table_body = Some example_rows\<rparr>],
        clock = [], site = (\<lambda>_. True), trace = []\<rparr>"

text \<open>
  A page of a week: a row before any day header; the header of Dienstag between a tab,
  blanks and a line feed; two rows of Dienstag with a row without cells between them;
  the header of Mittwoch between a no-break space and a next-line character; a row of
  Mittwoch.
\<close>

definition week_rows :: "table_row list" where
  "week_rows =
     [\<lparr>heads = [],
        bookable = [Some \<lparr>strong_time = Some ''15:00-16:00'', span_detail = Some ''Feld 3'',
                          href = Some ''link-a''\<rparr>]\<rparr>,
      \<lparr>heads = [[CHR 0x09, CHR '' ''] @ ''Dienstag'' @ [CHR '' '', CHR 0x0A]], bookable = []\<rparr>,
      \<lparr>heads = [],
        bookable = [Some \<lparr>strong_time = Some ''08:00-09:00'', span_detail = Some ''Feld 2'',
                          href = Some ''link-c''\<rparr>]\<rparr>,
      \<lparr>heads = [], bookable = []\<rparr>,
      \<lparr>heads = [],
        bookable = [Some \<lparr>strong_time = Some ''09:00-10:00'', span_detail = Some ''Feld 1'',
                          href = Some ''link-d''\<rparr>]\<rparr>,
      \<lparr>heads = [[CHR 0xA0] @ ''Mittwoch'' @ [CHR 0x85]], bookable = []\<rparr>,
      \<lparr>heads = [],
        bookable = [Some \<lparr>strong_time = Some ''10:00-11:00'', span_detail = Some ''Feld 4'',
                          href = Some ''link-e''\<rparr>]\<rparr>]"

definition week_slots :: "string option slots" where
  "week_slots =
     \<lparr>defaultdict = True,
        entries =
          [(''Montag'', [(''15:00-16:00'', [(''3'', Some ''link-a'')])]),
           (''Dienstag'', [(''08:00-09:00'', [(''2'', Some ''link-c'')]),
                           (''09:00-10:00'', [(''1'', Some ''link-d'')])]),
           (''Mittwoch'', [(''10:00-11:00'', [(''4'', Some ''link-e'')])])]\<rparr>"

definition week_world :: world where
  "week_world =
     \<lparr>responses = [\<lparr>status_code = 200, table_body = Some week_rows\<rparr>],
        clock = [], site = (\<lambda>_. True), trace = []\<rparr>"

text \<open>Two people and an account, and a world whose clock reads 100, 101, 102, 103.\<close>

definition example_manager :: manager where
  "example_manager =
     \<lparr>person1 = \<lparr>gender = ''female'', first_name = ''Ada'', last_name = ''Berg'',
                  address = ''Weg 1'', city = ''Berlin'', postal_code = ''10623'',
                  status = ''S-TU'', student_number = ''123456'', email = ''ada@example.org'',
                  phone = ''030 1234'', birthdate = ''01.02.2000''\<rparr>,
        person2 = \<lparr>gender = ''male'', first_name = ''Bo'', last_name = ''Carl'',
                  address = ''Weg 2'', city = ''Berlin'', postal_code = ''10625'',
                  status = ''extern'', student_number = ''0'', email = ''bo@example.org'',
                  phone = ''030 5678'', birthdate = ''03.04.1999''\<rparr>,
        bank_details = \<lparr>iban = ''DE00'', bic = ''BANK''\<rparr>\<rparr>"

definition confirm_world :: world where
  "confirm_world = \<lparr>responses = [], clock = [100, 101, 102, 103], site = (\<lambda>_. True), trace = []\<rparr>"

text \<open>
  \<open>launches\<close> counts the calls of \<^verbatim>\<open>fill_form\<close> in a trace: each call starts by
  launching the browser, and nothing else does. \<open>resolves\<close> says that a reply parses
  and has a booking link for the slot.
\<close>

definition launches :: "event list \<Rightarrow> nat" where
  "launches tr = length (filter (\<lambda>e. e = Browser Launch) tr)"

definition resolves :: "string \<Rightarrow> int \<Rightarrow> response \<Rightarrow> bool" where
  "resolves day start_time response =
     (case parse_response response of
        Inl e \<Rightarrow> False
      | Inr day_slots \<Rightarrow>
          (case fst (get_booking_link day_slots day start_time) of
             Inl e \<Rightarrow> False
           | Inr booking_url \<Rightarrow> True))"

text \<open>
  The reply that carries the example page, and a world with given replies, a site that
  accepts every step, and a clock that lets each wait of one second or less end at its
  second reading.
\<close>

definition example_reply :: response where
  "example_reply = \<lparr>status_code = 200, table_body = Some example_rows\<rparr>"

definition poll_world :: "response list \<Rightarrow> world" where
  "poll_world replies =
     \<lparr>responses = replies, clock = [0, 1, 1, 2, 2, 3, 3, 4], site = (\<lambda>_. True), trace = []\<rparr>"

section \<open>The monitor loop\<close>

text \<open>
  \<^verbatim>\<open>monitor_slots\<close>: \<^verbatim>\<open>while True\<close> around the attempt and the wait. The loop has no
  \<^verbatim>\<open>break\<close> and no \<^verbatim>\<open>return\<close>, and catches nothing. Every turn takes one reply, so
  the replies left are its measure; the lemmas before the termination proof say that
  nothing but the request touches them.
\<close>

function monitor_slots ::
  "manager \<Rightarrow> string \<Rightarrow> string \<Rightarrow> int \<Rightarrow> int \<Rightarrow> int \<Rightarrow> world \<Rightarrow> unit result \<times> world"
where
  "monitor_slots self url day start_time refresh_interval_s review_time_s w =
     (case attempt_booking self url day start_time review_time_s w of
        (Done _, w1) \<Rightarrow>
          (case time_time w1 of
             (Done t0, w2) \<Rightarrow>
               (case wait_refresh t0 refresh_interval_s w2 of
                  (Done _, w3) \<Rightarrow>
                    monitor_slots self url day start_time refresh_interval_s review_time_s w3
                | (Raised e, w3) \<Rightarrow> (Raised e, w3)
                | (Blocked, w3) \<Rightarrow> (Blocked, w3))
           | (Raised e, w2) \<Rightarrow> (Raised e, w2)
           | (Blocked, w2) \<Rightarrow> (Blocked, w2))
      | (Raised e, w1) \<Rightarrow> (Raised e, w1)
      | (Blocked, w1) \<Rightarrow> (Blocked, w1))"
  by pat_completeness auto

lemma bind_responses:
  assumes "\<And>x w'. responses (snd (f x w')) = responses w'"
  shows "responses (snd (bind rw f)) = responses (snd rw)"
  using assms by (simp add: bind_def split: result.splits)

lemma browser_responses: "responses (snd (browser a w)) = responses w"
  by (simp add: browser_def Let_def)

lemma perform_responses: "responses (snd (perform as w)) = responses w"
  by (induction as arbitrary: w) (simp_all add: bind_responses browser_responses)

lemma time_time_responses: "responses (snd (time_time w)) = responses w"
  by (simp add: time_time_def split: list.splits)

lemma wait_review_responses: "responses (snd (wait_review t0 r w)) = responses w"
proof (induction t0 r w rule: wait_review.induct)
  case (1 t0 r w)
  show ?case
  proof (cases "clock w")
    case Nil
    then show ?thesis
      by (subst wait_review.simps) (simp add: time_time_def)
  next
    case (Cons t ts)
    then show ?thesis
      using "1" [of "Done t" "w\<lparr>clock := ts, trace := trace w @ [Time t]\<rparr>" t "t - t0"]
      by (subst wait_review.simps) (simp add: time_time_def time_sleep_def Let_def)
  qed
qed

lemma wait_refresh_responses: "responses (snd (wait_refresh t0 r w)) = responses w"
proof (induction t0 r w rule: wait_refresh.induct)
  case (1 t0 r w)
  show ?case
  proof (cases "clock w")
    case Nil
    then show ?thesis
      by (subst wait_refresh.simps) (simp add: time_time_def)
  next
    case (Cons t ts)
    then show ?thesis
      using "1" [of "Done t" "w\<lparr>clock := ts, trace := trace w @ [Time t]\<rparr>" t "t - t0"
                    "of_int r - (t - t0)"]
      by (subst wait_refresh.simps) (simp add: time_time_def time_sleep_def Let_def)
  qed
qed

lemma fill_form_responses: "responses (snd (fill_form self u r w)) = responses w"
  unfolding fill_form_def
  by (simp add: bind_responses perform_responses time_time_responses wait_review_responses
        browser_responses time_sleep_def del: perform.simps)

lemma attempt_booking_responses:
  assumes "attempt_booking self url day h r w = (Done u, w1)"
  shows "\<exists>response. responses w = response # responses w1"
proof -
  from assms obtain response rest where w: "responses w = response # rest"
    by (cases "responses w")
       (auto simp add: attempt_booking_def fetch_available_slots_def requests_get_def bind_def)
  from w assms have "responses w1 = rest"
    by (auto simp add: attempt_booking_def fetch_available_slots_def requests_get_def bind_def
          fill_form_responses
          split: sum.splits dest: arg_cong [where f = "\<lambda>p. responses (snd p)"])
  with w show ?thesis by simp
qed

termination monitor_slots
proof (relation "measure (\<lambda>(self, url, day, start_time, refresh_interval_s, review_time_s, w).
                            length (responses w))")
  show "wf (measure (\<lambda>(self, url, day, start_time, refresh_interval_s, review_time_s, w).
                       length (responses w)))"
    by simp
next
  fix self :: manager and url day :: string and start_time refresh_interval_s review_time_s :: int
    and w :: world and x1 w1 u x2 w2 t0 x3 w3 u'
  assume a: "(x1, w1) = attempt_booking self url day start_time review_time_s w" "x1 = Done u"
    and t: "(x2, w2) = time_time w1" "x2 = Done t0"
    and r: "(x3, w3) = wait_refresh t0 refresh_interval_s w2" "x3 = Done u'"
  from a have "length (responses w1) < length (responses w)"
    using attempt_booking_responses [of self url day start_time review_time_s w u w1] by auto
  moreover from t have "responses w2 = responses w1"
    using time_time_responses [of w1] by (metis snd_conv)
  moreover from r have "responses w3 = responses w2"
    using wait_refresh_responses [of t0 refresh_interval_s w2] by (metis snd_conv)
  ultimately show "((self, url, day, start_time, refresh_interval_s, review_time_s, w3),
                    (self, url, day, start_time, refresh_interval_s, review_time_s, w))
                   \<in> measure (\<lambda>(self, url, day, start_time, refresh_interval_s, review_time_s, w).
                                length (responses w))"
    by simp
qed

declare monitor_slots.simps [simp del]

section \<open>Properties of the time-slot label\<close>

lemma digit_char_0: "digit_char 0 = CHR ''0''"
  by (simp add: digit_char_def)

lemma decimal_one_digit: "n < 10 \<Longrightarrow> decimal n = [digit_char n]"
  by (simp add: decimal.simps)

lemma decimal_two_digits:
  "10 \<le> n \<Longrightarrow> n < 100 \<Longrightarrow> decimal n = [digit_char (n div 10), digit_char (n mod 10)]"
  by (subst decimal.simps) (simp add: decimal_one_digit)

lemma format_02d_two_digits:
  assumes "0 \<le> h" and "h < 100"
  shows "format_02d h = two_digits h"
proof (cases "h < 10")
  case True
  with assms have "nat h < 10" and "h div 10 = 0" and "nat (h mod 10) = nat h"
    by auto
  with assms show ?thesis
    by (simp add: format_02d_def two_digits_def decimal_one_digit digit_char_0)
next
  case False
  with assms have "10 \<le> nat h" and "nat h < 100"
    by auto
  moreover have "nat (h div 10) = nat h div 10" and "nat (h mod 10) = nat h mod 10"
    using assms by (simp_all add: nat_div_distrib nat_mod_distrib)
  ultimately show ?thesis
    using assms by (simp add: format_02d_def two_digits_def decimal_two_digits)
qed

lemma generate_time_slot_15: "generate_time_slot 15 = ''15:00-16:00''"
  by (simp add: generate_time_slot_def format_02d_def decimal.simps digit_char_def)

text \<open>
  Claim C7. For every hour from 8 to 21, \<^verbatim>\<open>generate_time_slot\<close> returns the label the
  specification writes: the hour in two decimal digits, \<open>:00-\<close>, the next hour in two
  decimal digits, \<open>:00\<close>. At the two ends of the range these are \<open>08:00-09:00\<close> and
  \<open>21:00-22:00\<close>.
\<close>

theorem generate_time_slot_label:
  assumes "8 \<le> hour" and "hour < 22"
  shows "generate_time_slot hour = timeSlotLabel hour"
  using assms by (simp add: generate_time_slot_def timeSlotLabel_def format_02d_two_digits)

theorem generate_time_slot_label_witness:
  "(8::int) \<le> 8 \<and> (8::int) < 22 \<and> generate_time_slot 8 = ''08:00-09:00''
   \<and> (8::int) \<le> 21 \<and> (21::int) < 22 \<and> generate_time_slot 21 = ''21:00-22:00''"
  using generate_time_slot_label [of 8] generate_time_slot_label [of 21]
  by (simp add: timeSlotLabel_def two_digits_def digit_char_def)

section \<open>Properties of the slot resolver\<close>

text \<open>
  The two kinds of missing key give the same error, with the same message. An empty
  field mapping does not: \<^verbatim>\<open>next\<close> raises \<open>StopIteration\<close>, which the
  \<^verbatim>\<open>except KeyError\<close> lets through.
\<close>

lemma get_booking_link_day_absent:
  assumes "map_of (entries s) day = None"
  shows "fst (get_booking_link s day start_time)
           = Inl (slot_unavailable day (generate_time_slot start_time))"
  using assms
  by (simp add: get_booking_link_def first_pitch_of_def slots_getitem_def getitem_def Let_def)

lemma get_booking_link_time_absent:
  assumes "map_of (entries s) day = Some by_time"
      and "map_of by_time (generate_time_slot start_time) = None"
  shows "fst (get_booking_link s day start_time)
           = Inl (slot_unavailable day (generate_time_slot start_time))"
  using assms
  by (simp add: get_booking_link_def first_pitch_of_def slots_getitem_def getitem_def Let_def)

lemma get_booking_link_fields_empty:
  assumes "map_of (entries s) day = Some by_time"
      and "map_of by_time (generate_time_slot start_time) = Some []"
  shows "fst (get_booking_link s day start_time) = Inl StopIteration"
  using assms
  by (simp add: get_booking_link_def first_pitch_of_def slots_getitem_def getitem_def
        next_iter_def Let_def)

lemma get_booking_link_repeated:
  "fst (get_booking_link (snd (get_booking_link s day start_time)) day start_time)
     = fst (get_booking_link s day start_time)"
  by (auto simp add: get_booking_link_def first_pitch_of_def slots_getitem_def getitem_def
        next_iter_def Let_def
      split: option.splits list.splits sum.splits error.splits prod.splits)

text \<open>
  Claim C3. The claim says that \<^verbatim>\<open>get_booking_link\<close> reports one and the same error
  when the day is missing, when the time-slot label is missing under the day, and when
  the field mapping of the slot is empty. On the map
  \<^verbatim>\<open>{"Montag": {"15:00-16:00": {}}}\<close> the code raises \<open>StopIteration\<close>, while a missing
  label and a missing day both raise the \<open>ValueError\<close> with the message
  \<open>No slot available on Montag at 15:00-16:00\<close>.
\<close>

theorem get_booking_link_empty_fields_StopIteration:
  "fst (get_booking_link
          \<lparr>defaultdict = True,
             entries = [(''Montag'', [(''15:00-16:00'', [] :: string field_links)])]\<rparr>
          ''Montag'' 15) = Inl StopIteration
   \<and> fst (get_booking_link
          \<lparr>defaultdict = True,
             entries = [(''Montag'', [(''16:00-17:00'', [(''1'', ''link-b'')])])]\<rparr>
          ''Montag'' 15)
       = Inl (ValueError (''No slot available on Montag at 15:00-16:00'' @ [CHR 0x0A]))
   \<and> fst (get_booking_link
          \<lparr>defaultdict = True,
             entries = [(''Dienstag'', [(''15:00-16:00'', [(''1'', ''link-b'')])])]\<rparr>
          ''Montag'' 15)
       = Inl (ValueError (''No slot available on Montag at 15:00-16:00'' @ [CHR 0x0A]))"
  by (simp add: get_booking_link_def first_pitch_of_def slots_getitem_def getitem_def
        next_iter_def slot_unavailable_def generate_time_slot_15)

text \<open>
  Claim C6. When the day is in the map and the label of the hour is under the day with a
  field mapping that is not empty, \<^verbatim>\<open>get_booking_link\<close> returns the link of the entry
  that stands first in the mapping, whatever the field names are; and a second call on
  the map as the first call left it returns the same link. The witness is the scenario
  of the specification: field 3 was inserted before field 1, and the link of field 3 is
  returned.
\<close>

theorem get_booking_link_first_field:
  assumes "map_of (entries s) day = Some by_time"
      and "map_of by_time (generate_time_slot start_time) = Some ((pitch, link) # others)"
  shows "fst (get_booking_link s day start_time) = Inr link
         \<and> fst (get_booking_link (snd (get_booking_link s day start_time)) day start_time)
             = Inr link"
  using assms
  by (simp add: get_booking_link_def first_pitch_of_def slots_getitem_def getitem_def
        next_iter_def Let_def)

theorem get_booking_link_first_field_witness:
  "fst (get_booking_link
          \<lparr>defaultdict = True,
             entries = [(''Montag'', [(''15:00-16:00'', [(''3'', ''link-a''), (''1'', ''link-b'')])])]\<rparr>
          ''Montag'' 15) = Inr ''link-a''"
  using get_booking_link_first_field
    [of "\<lparr>defaultdict = True,
           entries = [(''Montag'', [(''15:00-16:00'', [(''3'', ''link-a''), (''1'', ''link-b'')])])]\<rparr>"
        "''Montag''" "[(''15:00-16:00'', [(''3'', ''link-a''), (''1'', ''link-b'')])]" 15
        "''3''" "''link-a''" "[(''1'', ''link-b'')]"]
  by (simp add: generate_time_slot_15)

text \<open>
  Claim C9, as the code has it. \<^verbatim>\<open>get_booking_link\<close> leaves the map as it was whenever
  the day is a key of it, and whenever the map is a plain dictionary. On a
  \<open>defaultdict\<close>, which is what \<^verbatim>\<open>fetch_available_slots\<close> returns, a day that is
  missing is stored with an empty mapping by the very lookup that then fails.
\<close>

theorem get_booking_link_map_after:
  "snd (get_booking_link s day start_time) =
     (if defaultdict s \<and> map_of (entries s) day = None
      then s\<lparr>entries := entries s @ [(day, [])]\<rparr> else s)"
  by (auto simp add: get_booking_link_def first_pitch_of_def slots_getitem_def getitem_def
        next_iter_def Let_def
      split: option.splits list.splits sum.splits error.splits prod.splits)

text \<open>
  Claim C9 as stated fails on the empty map that the parser returns for a page without
  bookable cells: after the call for Montag the map has the key Montag.
\<close>

theorem get_booking_link_mutates_defaultdict:
  "snd (get_booking_link
          \<lparr>defaultdict = True, entries = [] :: (string \<times> string option time_slots) list\<rparr>
          ''Montag'' 15)
     \<noteq> \<lparr>defaultdict = True, entries = []\<rparr>"
  by (simp add: get_booking_link_def first_pitch_of_def slots_getitem_def getitem_def)

section \<open>Properties of the parser\<close>

lemma fetch_available_slots_Done:
  assumes "fetch_available_slots url w = (Done day_slots, w')"
  shows "\<exists>response rest. responses w = response # rest \<and> parse_response response = Inr day_slots
           \<and> w' = w\<lparr>responses := rest, trace := trace w @ [Get url]\<rparr>"
  using assms
  by (cases "responses w")
     (auto simp add: fetch_available_slots_def requests_get_def bind_def split: sum.splits)

lemma strip_Dienstag: "strip '' Dienstag '' = ''Dienstag''"
  by (simp add: strip_def isspace_def)

lemma parse_rows_example:
  "parse_rows ''Montag'' [] example_rows = Inr (entries example_slots)"
  by (simp add: example_rows_def example_slots_def store_day_def setitem2_def strip_Dienstag)

lemma fetch_available_slots_example:
  "fetch_available_slots ''url'' (page_world 200)
     = (Done example_slots, (page_world 200)\<lparr>responses := [], trace := [Get ''url'']\<rparr>)"
  by (simp add: fetch_available_slots_def requests_get_def bind_def page_world_def
        parse_response_def parse_rows_example example_slots_def)

lemma collect_time_slots_not_ConnectionError:
  "collect_time_slots ts cells \<noteq> Inl ConnectionError"
  by (induction cells arbitrary: ts) (auto split: option.splits)

lemma parse_rows_not_ConnectionError:
  "parse_rows d ds rows \<noteq> Inl ConnectionError"
  by (induction rows arbitrary: d ds)
     (auto simp add: collect_time_slots_not_ConnectionError split: sum.splits)

text \<open>
  Claim C5, as the code has it. \<^verbatim>\<open>fetch_available_slots\<close> raises
  \<open>ConnectionError\<close> exactly when the status code of the reply is not 200: with 200 it
  goes on to the parse, whose errors are other ones, and with any other code, the other
  codes from 200 to 299 among them, it raises.
\<close>

theorem fetch_available_slots_ConnectionError_iff:
  assumes "responses w = response # rest"
  shows "(fst (fetch_available_slots url w) = Raised ConnectionError) = (status_code response \<noteq> 200)"
  using assms parse_rows_not_ConnectionError
  by (auto simp add: fetch_available_slots_def requests_get_def bind_def parse_response_def
      split: sum.splits option.splits)

theorem fetch_available_slots_ConnectionError_iff_witness:
  "fst (fetch_available_slots ''url'' (page_world 500)) = Raised ConnectionError
   \<and> fst (fetch_available_slots ''url'' (page_world 200)) \<noteq> Raised ConnectionError"
  using fetch_available_slots_ConnectionError_iff
          [of "page_world 500" "\<lparr>status_code = 500, table_body = Some example_rows\<rparr>" "[]" "''url''"]
        fetch_available_slots_ConnectionError_iff
          [of "page_world 200" "\<lparr>status_code = 200, table_body = Some example_rows\<rparr>" "[]" "''url''"]
  by (simp add: page_world_def)

text \<open>
  Claim C5 as stated fails at the status code 203, which is a success of the class 2xx:
  the page is the example page, and the parser raises \<open>ConnectionError\<close>.
\<close>

theorem fetch_available_slots_status_203:
  "(200::int) \<le> 203 \<and> (203::int) < 300
   \<and> fst (fetch_available_slots ''url'' (page_world 203)) = Raised ConnectionError"
  by (simp add: fetch_available_slots_def requests_get_def bind_def page_world_def
        parse_response_def)

subsection \<open>The day of a row\<close>

lemma day_context_Nil: "day_context d [] = d"
  by (simp add: day_context_def)

lemma strip_all_space:
  assumes "list_all isspace s"
  shows "strip s = []"
proof -
  from assms have none: "dropWhile isspace s = []"
    by (simp add: list_all_iff)
  show ?thesis
    unfolding strip_def none by simp
qed

lemma strip_header_name: "strip s = header_name s"
proof (cases "dropWhile isspace s = []")
  case True
  then have whole: "takeWhile isspace s = s"
    by (simp add: takeWhile_eq_all_conv)
  have "header_name s = []"
    unfolding header_name_def Let_def whole by simp
  moreover have "strip s = []"
    unfolding strip_def True by simp
  ultimately show ?thesis by simp
next
  case False
  define rest where "rest = dropWhile isspace s"
  from False have "\<not> isspace (hd rest)" "rest \<noteq> []"
    unfolding rest_def by (simp_all add: hd_dropWhile)
  then have "hd rest \<in> set (rev rest)" "\<not> isspace (hd rest)"
    by simp_all
  then have "takeWhile isspace (rev rest @ rev (takeWhile isspace s)) = takeWhile isspace (rev rest)"
    by (rule takeWhile_append1)
  moreover have "rev s = rev rest @ rev (takeWhile isspace s)"
    unfolding rest_def by (simp flip: rev_append)
  ultimately have trailing: "takeWhile isspace (rev s) = takeWhile isspace (rev rest)"
    by simp
  have rest: "rest = drop (length (takeWhile isspace s)) s"
    unfolding rest_def by (rule dropWhile_eq_drop)
  then have len: "length rest = length s - length (takeWhile isspace s)"
    by simp
  have "strip s = rev (drop (length (takeWhile isspace (rev rest))) (rev rest))"
    unfolding strip_def rest_def [symmetric] by (simp add: dropWhile_eq_drop)
  also have "\<dots> = take (length rest - length (takeWhile isspace (rev rest))) rest"
    by (simp add: rev_drop)
  finally show ?thesis
    unfolding header_name_def Let_def trailing len rest [symmetric] .
qed

lemma header_name_unique:
  assumes "list_all isspace before" and "list_all isspace after"
      and "name = [] \<or> (\<not> isspace (hd name) \<and> \<not> isspace (last name))"
  shows "header_name (before @ name @ after) = name"
proof (cases "name = []")
  case True
  with assms(1,2) have "list_all isspace (before @ name @ after)" by simp
  then have "strip (before @ name @ after) = []" by (rule strip_all_space)
  with True show ?thesis by (simp add: strip_header_name)
next
  case False
  with assms(3) have ends: "\<not> isspace (hd name)" "\<not> isspace (last name)" by simp_all
  from assms(1) have "dropWhile isspace (before @ name @ after) = dropWhile isspace (name @ after)"
    by (simp add: list_all_iff)
  also from False ends(1) have "\<dots> = name @ after"
    by (cases name) simp_all
  finally have first: "dropWhile isspace (before @ name @ after) = name @ after" .
  from assms(2) have "dropWhile isspace (rev after @ rev name) = dropWhile isspace (rev name)"
    by (intro dropWhile_append2) (simp add: list_all_iff)
  also from False ends(2) have "\<dots> = rev name"
    by (cases "rev name") (simp_all add: last_rev [symmetric] hd_rev)
  finally have "rev (dropWhile isspace (rev (name @ after))) = name"
    by simp
  with first have "strip (before @ name @ after) = name"
    by (simp add: strip_def)
  then show ?thesis by (simp add: strip_header_name)
qed

lemma day_context_Cons:
  "day_context d (row # rows) =
     (if heads row \<noteq> [] then day_context (header_name (hd (heads row))) rows
      else day_context d rows)"
  by (simp add: day_context_def split: list.splits)

lemma parse_rows_append:
  "parse_rows d ds (xs @ ys) =
     (case parse_rows d ds xs of
        Inl e \<Rightarrow> Inl e
      | Inr ds' \<Rightarrow> parse_rows (day_context d xs) ds' ys)"
  by (induction xs arbitrary: d ds)
     (simp_all add: day_context_Nil day_context_Cons strip_header_name split: sum.splits)

lemma setitem2_files: "filed day time_slot (setitem2 ds day time_slot by_field)"
  by (simp add: filed_def setitem2_def AList.update_conv' AList.dom_update)

lemma setitem2_keeps_filed:
  assumes "filed d t ds"
  shows "filed d t (setitem2 ds day time_slot by_field)"
  using assms
  by (auto simp add: filed_def setitem2_def AList.update_conv' AList.dom_update)

lemma store_day_keeps_filed:
  "filed d t ds \<Longrightarrow> filed d t (store_day day ts ds)"
  unfolding store_day_def
  by (induction ts arbitrary: ds) (simp_all add: setitem2_keeps_filed)

lemma store_day_files:
  "slot \<in> set ts \<Longrightarrow> filed day (fst slot) (store_day day ts ds)"
proof (induction ts arbitrary: ds)
  case Nil
  then show ?case by simp
next
  case (Cons s ts)
  show ?case
  proof (cases "slot = s")
    case True
    have "filed day (fst s) (store_day day ts (setitem2 ds day (fst s) (snd s)))"
      by (rule store_day_keeps_filed) (rule setitem2_files)
    with True show ?thesis by (simp add: store_day_def)
  next
    case False
    with Cons.prems have "slot \<in> set ts" by simp
    then have "filed day (fst slot) (store_day day ts (setitem2 ds day (fst s) (snd s)))"
      by (rule Cons.IH)
    then show ?thesis by (simp add: store_day_def)
  qed
qed

lemma parse_rows_keeps_filed:
  "filed d t ds \<Longrightarrow> parse_rows day ds rows = Inr ds' \<Longrightarrow> filed d t ds'"
proof (induction rows arbitrary: day ds)
  case Nil
  then show ?case by simp
next
  case (Cons row rows)
  show ?case
  proof (cases "heads row = [] \<and> bookable row \<noteq> []")
    case True
    with Cons.prems(2) obtain ts where
      "parse_rows day (store_day day ts ds) rows = Inr ds'"
      by (auto split: sum.splits)
    moreover from Cons.prems(1) have "filed d t (store_day day ts ds)"
      by (rule store_day_keeps_filed)
    ultimately show ?thesis
      using Cons.IH by blast
  next
    case False
    with Cons show ?thesis
      by (auto split: if_splits)
  qed
qed

text \<open>
  Claim C8. Take a page whose schedule is \<open>before @ row # after\<close>, where \<open>row\<close> has no
  day header and its cells give the time slots \<open>time_slots\<close>. When
  \<^verbatim>\<open>fetch_available_slots\<close> returns a map, the loop has come through \<open>before\<close>, has
  stored \<open>time_slots\<close> under the name shown by the last header in \<open>before\<close> (under
  Montag when \<open>before\<close> has no header, however many rows it has), and has gone on from
  there; and in the map returned every label of the row is a key under that day. The
  name shown by a header is \<open>header_name\<close> of its text, which is the text between the
  white space around it (\<open>header_name_unique\<close>). The witness is the page of a week: the
  first row is filed under Montag, the second row of Dienstag under Dienstag although
  two rows lie between it and its header, and the row of Mittwoch under Mittwoch, whose
  header has a no-break space before the name and a next-line character after it.
\<close>

theorem fetch_available_slots_day_context:
  assumes "responses w = response # rest"
      and "table_body response = Some (before @ row # after)"
      and "heads row = []"
      and "collect_time_slots [] (bookable row) = Inr time_slots"
      and "(time_slot, by_field) \<in> set time_slots"
      and "fetch_available_slots url w = (Done day_slots, w')"
  shows "\<exists>ds. parse_rows ''Montag'' [] before = Inr ds
           \<and> parse_rows (day_context ''Montag'' before)
                (store_day (day_context ''Montag'' before) time_slots ds) after
               = Inr (entries day_slots)
           \<and> (\<exists>by_time. map_of (entries day_slots) (day_context ''Montag'' before) = Some by_time
                 \<and> time_slot \<in> fst ` set by_time)"
proof -
  let ?day = "day_context ''Montag'' before"
  from assms(1,6) have "parse_response response = Inr day_slots"
    using fetch_available_slots_Done [of url w day_slots w'] by auto
  with assms(2) have all: "parse_rows ''Montag'' [] (before @ row # after) = Inr (entries day_slots)"
    by (auto simp add: parse_response_def split: if_splits sum.splits)
  then obtain ds where
    ds: "parse_rows ''Montag'' [] before = Inr ds"
    and tail: "parse_rows ?day ds (row # after) = Inr (entries day_slots)"
    by (auto simp add: parse_rows_append split: sum.splits)
  from assms(4,5) have "bookable row \<noteq> []"
    by auto
  with tail assms(3,4) have
    rest: "parse_rows ?day (store_day ?day time_slots ds) after = Inr (entries day_slots)"
    by simp
  from assms(5) have "filed ?day (fst (time_slot, by_field)) (store_day ?day time_slots ds)"
    by (rule store_day_files)
  then have "filed ?day time_slot (entries day_slots)"
    using rest parse_rows_keeps_filed by fastforce
  with ds rest show ?thesis
    by (auto simp add: filed_def)
qed


lemma header_name_week:
  "header_name ([CHR 0x09, CHR '' ''] @ ''Dienstag'' @ [CHR '' '', CHR 0x0A]) = ''Dienstag''"
  "header_name ([CHR 0xA0] @ ''Mittwoch'' @ [CHR 0x85]) = ''Mittwoch''"
  by (rule header_name_unique; simp add: isspace_def)+

lemma fetch_available_slots_week:
  "fetch_available_slots ''url'' week_world
     = (Done week_slots, week_world\<lparr>responses := [], trace := [Get ''url'']\<rparr>)"
  by (simp add: fetch_available_slots_def requests_get_def bind_def week_world_def
        parse_response_def week_rows_def week_slots_def store_day_def setitem2_def
        strip_header_name header_name_week del: append.simps)

theorem fetch_available_slots_day_context_witness:
  "day_context ''Montag'' [] = ''Montag''
   \<and> day_context ''Montag'' (take 4 week_rows) = ''Dienstag''
   \<and> day_context ''Montag'' (take 6 week_rows) = ''Mittwoch''
   \<and> fst (fetch_available_slots ''url'' week_world) =
       Done \<lparr>defaultdict = True,
              entries =
                [(''Montag'', [(''15:00-16:00'', [(''3'', Some ''link-a'')])]),
                 (''Dienstag'', [(''08:00-09:00'', [(''2'', Some ''link-c'')]),
                                 (''09:00-10:00'', [(''1'', Some ''link-d'')])]),
                 (''Mittwoch'', [(''10:00-11:00'', [(''4'', Some ''link-e'')])])]\<rparr>"
proof -
  let ?reply = "\<lparr>status_code = 200, table_body = Some week_rows\<rparr>"
  have body: "responses week_world = [?reply]"
    by (simp add: week_world_def)
  have rows:
    "table_body ?reply = Some ([] @ week_rows ! 0 # drop 1 week_rows)"
    "table_body ?reply = Some (take 4 week_rows @ week_rows ! 4 # drop 5 week_rows)"
    "table_body ?reply = Some (take 6 week_rows @ week_rows ! 6 # [])"
    by (simp_all add: week_rows_def del: append.simps)
  have heads: "heads (week_rows ! 0) = []" "heads (week_rows ! 4) = []" "heads (week_rows ! 6) = []"
    by (simp_all add: week_rows_def del: append.simps)
  have cells:
    "collect_time_slots [] (bookable (week_rows ! 0)) = Inr [(''15:00-16:00'', [(''3'', Some ''link-a'')])]"
    "collect_time_slots [] (bookable (week_rows ! 4)) = Inr [(''09:00-10:00'', [(''1'', Some ''link-d'')])]"
    "collect_time_slots [] (bookable (week_rows ! 6)) = Inr [(''10:00-11:00'', [(''4'', Some ''link-e'')])]"
    by (simp_all add: week_rows_def setitem2_def del: append.simps)
  have slot:
    "(''15:00-16:00'', [(''3'', Some ''link-a'')]) \<in> set [(''15:00-16:00'', [(''3'', Some ''link-a'')])]"
    "(''09:00-10:00'', [(''1'', Some ''link-d'')]) \<in> set [(''09:00-10:00'', [(''1'', Some ''link-d'')])]"
    "(''10:00-11:00'', [(''4'', Some ''link-e'')]) \<in> set [(''10:00-11:00'', [(''4'', Some ''link-e'')])]"
    by simp_all
  note run = fetch_available_slots_week
  have "\<exists>by_time. map_of (entries week_slots) (day_context ''Montag'' []) = Some by_time
          \<and> ''15:00-16:00'' \<in> fst ` set by_time"
    using fetch_available_slots_day_context [OF body rows(1) heads(1) cells(1) slot(1) run]
    by blast
  moreover
  have "\<exists>by_time. map_of (entries week_slots) (day_context ''Montag'' (take 4 week_rows)) = Some by_time
          \<and> ''09:00-10:00'' \<in> fst ` set by_time"
    using fetch_available_slots_day_context [OF body rows(2) heads(2) cells(2) slot(2) run]
    by blast
  moreover
  have "\<exists>by_time. map_of (entries week_slots) (day_context ''Montag'' (take 6 week_rows)) = Some by_time
          \<and> ''10:00-11:00'' \<in> fst ` set by_time"
    using fetch_available_slots_day_context [OF body rows(3) heads(3) cells(3) slot(3) run]
    by blast
  ultimately show ?thesis
    using run
    by (simp add: day_context_def week_rows_def week_slots_def header_name_week
          del: append.simps)
qed

subsection \<open>No empty inner mapping\<close>

lemma update_cases:
  "p \<in> set (AList.update k v ps) \<Longrightarrow> p = (k, v) \<or> p \<in> set ps"
  by (induction ps) (auto split: if_splits)

lemma fields_nonempty_update:
  "fields_nonempty ts \<Longrightarrow> v \<noteq> [] \<Longrightarrow> fields_nonempty (AList.update k v ts)"
  by (auto simp add: fields_nonempty_def dest!: update_cases)

lemma setitem2_fields_nonempty:
  "fields_nonempty ts \<Longrightarrow> fields_nonempty (setitem2 ts time_slot pitch link)"
  by (simp add: setitem2_def fields_nonempty_update)

lemma collect_time_slots_fields_nonempty:
  "fields_nonempty ts \<Longrightarrow> collect_time_slots ts cells = Inr ts' \<Longrightarrow> fields_nonempty ts'"
proof (induction cells arbitrary: ts)
  case Nil
  then show ?case by simp
next
  case (Cons cell cells)
  show ?case
  proof (cases cell)
    case None
    with Cons show ?thesis by simp
  next
    case (Some link_tag)
    with Cons.prems(2) obtain time_slot detail where
      "collect_time_slots (setitem2 ts time_slot [last detail] (href link_tag)) cells = Inr ts'"
      by (auto split: option.splits if_splits)
    moreover have "fields_nonempty (setitem2 ts time_slot [last detail] (href link_tag))"
      using Cons.prems(1) by (rule setitem2_fields_nonempty)
    ultimately show ?thesis
      using Cons.IH by blast
  qed
qed

lemma inner_nonempty_lookup:
  assumes "inner_nonempty ds"
  shows "fields_nonempty (case map_of ds d of None \<Rightarrow> [] | Some inner \<Rightarrow> inner)"
proof (cases "map_of ds d")
  case None
  then show ?thesis by (simp add: fields_nonempty_def)
next
  case (Some inner)
  then have "(d, inner) \<in> set ds" by (rule map_of_SomeD)
  with assms have "fields_nonempty inner" by (auto simp add: inner_nonempty_def)
  with Some show ?thesis by simp
qed

lemma setitem2_inner_nonempty:
  assumes "inner_nonempty ds" and "by_field \<noteq> []"
  shows "inner_nonempty (setitem2 ds day time_slot by_field)"
  unfolding inner_nonempty_def setitem2_def
proof
  fix d
  assume "d \<in> set (AList.update day (AList.update time_slot by_field
            (case map_of ds day of None \<Rightarrow> [] | Some inner \<Rightarrow> inner)) ds)"
  then consider "snd d = AList.update time_slot by_field
            (case map_of ds day of None \<Rightarrow> [] | Some inner \<Rightarrow> inner)" | "d \<in> set ds"
    by (auto dest!: update_cases)
  then show "snd d \<noteq> [] \<and> fields_nonempty (snd d)"
  proof cases
    case 1
    with assms show ?thesis
      by (simp add: fields_nonempty_update inner_nonempty_lookup)
  next
    case 2
    with assms(1) show ?thesis
      by (simp add: inner_nonempty_def)
  qed
qed

lemma store_day_inner_nonempty:
  "inner_nonempty ds \<Longrightarrow> fields_nonempty ts \<Longrightarrow> inner_nonempty (store_day day ts ds)"
  unfolding store_day_def
  by (induction ts arbitrary: ds) (simp_all add: setitem2_inner_nonempty fields_nonempty_def)

lemma parse_rows_inner_nonempty:
  "inner_nonempty ds \<Longrightarrow> parse_rows day ds rows = Inr ds' \<Longrightarrow> inner_nonempty ds'"
proof (induction rows arbitrary: day ds)
  case Nil
  then show ?case by simp
next
  case (Cons row rows)
  show ?case
  proof (cases "heads row \<noteq> []")
    case True
    with Cons show ?thesis by simp
  next
    case False
    show ?thesis
    proof (cases "bookable row \<noteq> []")
      case True
      with False Cons.prems obtain ts where
        ts: "collect_time_slots [] (bookable row) = Inr ts"
        and rest: "parse_rows day (store_day day ts ds) rows = Inr ds'"
        by (auto split: sum.splits)
      from ts have "fields_nonempty ts"
        using collect_time_slots_fields_nonempty [of "[]"] by (simp add: fields_nonempty_def)
      with Cons.prems(1) have "inner_nonempty (store_day day ts ds)"
        by (rule store_day_inner_nonempty)
      with rest show ?thesis by (rule Cons.IH [rotated])
    next
      case False
      with \<open>\<not> heads row \<noteq> []\<close> Cons show ?thesis by simp
    qed
  qed
qed

lemma parse_response_inner_nonempty:
  "parse_response response = Inr day_slots \<Longrightarrow> inner_nonempty (entries day_slots)"
  by (auto simp add: parse_response_def inner_nonempty_def [of "[]"]
      split: if_splits option.splits sum.splits dest!: parse_rows_inner_nonempty [rotated])

text \<open>
  Claim C10. In every map that \<^verbatim>\<open>fetch_available_slots\<close> returns, every day has at
  least one time-slot label and every label at least one field with its link; so
  \<^verbatim>\<open>get_booking_link\<close> never meets an empty field mapping in such a map, and never
  raises \<open>StopIteration\<close> on it.
\<close>

theorem fetch_available_slots_inner_nonempty:
  assumes "fetch_available_slots url w = (Done day_slots, w')"
  shows "(\<forall>(day, by_time) \<in> set (entries day_slots).
            by_time \<noteq> [] \<and> (\<forall>(time_slot, by_field) \<in> set by_time. by_field \<noteq> []))
         \<and> fst (get_booking_link day_slots day start_time) \<noteq> Inl StopIteration"
proof -
  from assms obtain response where "parse_response response = Inr day_slots"
    using fetch_available_slots_Done by blast
  then have inv: "inner_nonempty (entries day_slots)"
    by (rule parse_response_inner_nonempty)
  then have first: "\<forall>(day, by_time) \<in> set (entries day_slots).
            by_time \<noteq> [] \<and> (\<forall>(time_slot, by_field) \<in> set by_time. by_field \<noteq> [])"
    by (fastforce simp add: inner_nonempty_def fields_nonempty_def)
  have "fst (get_booking_link day_slots day start_time) \<noteq> Inl StopIteration"
  proof (cases "map_of (entries day_slots) day")
    case None
    then show ?thesis
      by (simp add: get_booking_link_day_absent slot_unavailable_def)
  next
    case (Some by_time)
    show ?thesis
    proof (cases "map_of by_time (generate_time_slot start_time)")
      case None
      with Some show ?thesis
        by (simp add: get_booking_link_time_absent slot_unavailable_def)
    next
      case inner: (Some by_field)
      from Some inner first have "by_field \<noteq> []"
        by (auto dest!: map_of_SomeD)
      then obtain pitch link others where "by_field = (pitch, link) # others"
        by (cases by_field) auto
      with Some inner show ?thesis
        by (simp add: get_booking_link_def first_pitch_of_def slots_getitem_def getitem_def
        next_iter_def Let_def)
    qed
  qed
  with first show ?thesis by simp
qed


theorem fetch_available_slots_inner_nonempty_witness:
  "fetch_available_slots ''url'' (page_world 200)
     = (Done example_slots, (page_world 200)\<lparr>responses := [], trace := [Get ''url'']\<rparr>)
   \<and> list_all (\<lambda>d. snd d \<noteq> [] \<and> list_all (\<lambda>slot. snd slot \<noteq> []) (snd d)) (entries example_slots)
   \<and> fst (get_booking_link example_slots ''Montag'' 15) = Inr (Some ''link-a'')"
  using fetch_available_slots_inner_nonempty
          [OF fetch_available_slots_example, of "''Montag''" 15]
        fetch_available_slots_example
  by (simp add: example_slots_def get_booking_link_def first_pitch_of_def slots_getitem_def
        getitem_def next_iter_def generate_time_slot_15)

section \<open>Properties of the booking flow\<close>

text \<open>How a sequence of two steps goes on, and what the primitives add to the trace.\<close>

lemma bind_Done: "fst rw = Done x \<Longrightarrow> bind rw f = f x (snd rw)"
  by (simp add: bind_def)

lemma bind_not_Done_snd: "fst rw \<noteq> Done () \<Longrightarrow> snd (bind rw f) = snd rw"
  by (cases "fst rw") (simp_all add: bind_def)

lemma time_time_Nil: "clock w = [] \<Longrightarrow> time_time w = (Blocked, w)"
  by (simp add: time_time_def)

lemma time_time_Cons:
  "clock w = t # ts \<Longrightarrow> time_time w = (Done t, w\<lparr>clock := ts, trace := trace w @ [Time t]\<rparr>)"
  by (simp add: time_time_def)

lemma browser_trace: "trace (snd (browser a w)) = trace w @ [Browser a]"
  by (simp add: browser_def Let_def)

lemma perform_trace:
  "\<exists>acts. trace (snd (perform as w)) = trace w @ map Browser acts \<and> set acts \<subseteq> set as
      \<and> (fst (perform as w) = Done () \<longrightarrow> acts = as)"
proof (induction as arbitrary: w)
  case Nil
  then show ?case by simp
next
  case (Cons a as)
  show ?case
  proof (cases "fst (browser a w)")
    case (Done u)
    from Cons [of "snd (browser a w)"] obtain acts where
      "trace (snd (perform as (snd (browser a w)))) = trace (snd (browser a w)) @ map Browser acts"
      "set acts \<subseteq> set as" "fst (perform as (snd (browser a w))) = Done () \<longrightarrow> acts = as"
      by blast
    with Done show ?thesis
      by (intro exI [of _ "a # acts"]) (auto simp add: bind_def browser_trace)
  next
    case (Raised e)
    then show ?thesis
      by (intro exI [of _ "[a]"]) (simp add: bind_def browser_trace)
  next
    case Blocked
    then show ?thesis
      by (intro exI [of _ "[a]"]) (simp add: bind_def browser_trace)
  qed
qed

lemma wait_review_trace:
  "\<exists>ev. trace (snd (wait_review t0 r w)) = trace w @ ev \<and> (\<forall>e \<in> set ev. \<forall>a. e \<noteq> Browser a)
      \<and> (fst (wait_review t0 r w) = Done () \<longrightarrow> (\<exists>waiting t. ev = waiting @ [Time t] \<and> of_int r < t - t0))"
proof (induction t0 r w rule: wait_review.induct)
  case (1 t0 r w)
  show ?case
  proof (cases "clock w")
    case Nil
    then show ?thesis
      by (subst (1 2) wait_review.simps) (simp add: time_time_def)
  next
    case (Cons t ts)
    define w1 where "w1 = w\<lparr>clock := ts, trace := trace w @ [Time t]\<rparr>"
    show ?thesis
    proof (cases "of_int r < t - t0")
      case True
      with Cons show ?thesis
        by (subst (1 2) wait_review.simps) (simp add: time_time_def Let_def)
    next
      case False
      with Cons have step: "wait_review t0 r w = wait_review t0 r (time_sleep 1 w1)"
        by (subst wait_review.simps) (simp add: time_time_def Let_def w1_def)
      from Cons False "1" [of "Done t" w1 t "t - t0"] obtain ev where
        ev: "trace (snd (wait_review t0 r (time_sleep 1 w1))) = trace (time_sleep 1 w1) @ ev"
          "\<forall>e \<in> set ev. \<forall>a. e \<noteq> Browser a"
          "fst (wait_review t0 r (time_sleep 1 w1)) = Done ()
             \<longrightarrow> (\<exists>waiting t. ev = waiting @ [Time t] \<and> of_int r < t - t0)"
        by (auto simp add: time_time_def w1_def)
      show ?thesis
        unfolding step using ev
        by (intro exI [of _ "Time t # Sleep 1 # ev"])
           (auto simp add: time_sleep_def w1_def intro: exI [of _ "Time t # Sleep 1 # _"])
    qed
  qed
qed

text \<open>
  The two waiting loops, one turn at a time. As rewrite rules these unfold a loop on a
  given clock reading by reading.
\<close>

lemma wait_review_step:
  "wait_review t0 r w =
     (case clock w of
        [] \<Rightarrow> (Blocked, w)
      | t # ts \<Rightarrow>
          if of_int r < t - t0 then (Done (), w\<lparr>clock := ts, trace := trace w @ [Time t]\<rparr>)
          else wait_review t0 r (w\<lparr>clock := ts, trace := trace w @ [Time t, Sleep 1]\<rparr>))"
  by (subst wait_review.simps) (simp add: time_time_def time_sleep_def Let_def split: list.splits)

lemma wait_refresh_step:
  "wait_refresh t0 r w =
     (case clock w of
        [] \<Rightarrow> (Blocked, w)
      | t # ts \<Rightarrow>
          if of_int r - (t - t0) \<le> 0 then (Done (), w\<lparr>clock := ts, trace := trace w @ [Time t]\<rparr>)
          else wait_refresh t0 r (w\<lparr>clock := ts, trace := trace w @ [Time t, Sleep 1]\<rparr>))"
  by (subst wait_refresh.simps) (simp add: time_time_def time_sleep_def Let_def split: list.splits)

text \<open>
  Claim C4. Whenever a run of \<^verbatim>\<open>fill_form\<close> clicks \<open>kostenpflichtig buchen\<close>, what
  it did reads: the pages up to the confirmation checkbox, a reading \<open>t0\<close> of the clock,
  the wait, a reading \<open>t\<close> of the clock with \<open>t - t0\<close> greater than the review time,
  and directly after it the click; there is no such click before. So between the
  reading taken on the confirmation page and the click more than \<open>review_time_s\<close>
  seconds have passed on the clock, for every review time (the non-negative ones among
  them). The witness is a run with a review time of two seconds: at the reading 102
  exactly two seconds have passed and the loop sleeps again, at 103 it clicks.
\<close>

theorem fill_form_review_window:
  assumes "fill_form self booking_url review_time_s w = (r, w')"
      and "trace w' = trace w @ new"
      and "Browser (ClickButton ''kostenpflichtig buchen'') \<in> set new"
  shows "\<exists>before t0 waiting t after.
           new = before @ [Browser (CheckRole ''checkbox''), Time t0] @ waiting
                   @ [Time t, Browser (ClickButton ''kostenpflichtig buchen'')] @ after
           \<and> Browser (ClickButton ''kostenpflichtig buchen'') \<notin> set (before @ waiting)
           \<and> of_int review_time_s < t - t0"
proof -
  let ?click = "Browser (ClickButton ''kostenpflichtig buchen'')"
  define pages where "pages =
     [Launch, NewContext, NewPage, Goto booking_url, CheckRole ''radio'',
      ClickButton ''weiter zur Buchung'',
      FillPersonalDetails (person1 self) None,
      FillPersonalDetails (person2 self) (Some 2),
      FillInput ''iban'' (iban (bank_details self)),
      FillInput ''bic'' (bic (bank_details self)),
      CheckInput ''BuchBed'',
      ClickButton ''verbindlich anmelden'']"
  have no_click: "ClickButton ''kostenpflichtig buchen'' \<notin> set (pages @ [CheckRole ''checkbox''])"
    by (simp add: pages_def)
  define p1 where "p1 = perform (pages @ [CheckRole ''checkbox'']) w"
  have ff: "fill_form self booking_url review_time_s w =
     bind p1 (\<lambda>_ w1.
     bind (time_time w1) (\<lambda>t0 w2.
     bind (wait_review t0 review_time_s w2) (\<lambda>_ w3.
     bind (browser (ClickButton ''kostenpflichtig buchen'') w3) (\<lambda>_ w4.
     perform [CloseContext, CloseBrowser] (time_sleep 10 w4)))))"
    unfolding fill_form_def p1_def pages_def by simp
  have "\<exists>acts. trace (snd p1) = trace w @ map Browser acts
           \<and> set acts \<subseteq> set (pages @ [CheckRole ''checkbox''])
           \<and> (fst p1 = Done () \<longrightarrow> acts = pages @ [CheckRole ''checkbox''])"
    unfolding p1_def by (rule perform_trace)
  then obtain acts where acts: "trace (snd p1) = trace w @ map Browser acts"
      "set acts \<subseteq> set (pages @ [CheckRole ''checkbox''])"
      "fst p1 = Done () \<longrightarrow> acts = pages @ [CheckRole ''checkbox'']"
    by (elim exE conjE) (rule that)
  from acts(2) no_click have acts_no_click: "?click \<notin> set (map Browser acts)"
    by auto
  show ?thesis
  proof (cases "fst p1 = Done ()")
    case False
    have "snd (fill_form self booking_url review_time_s w) = snd p1"
      unfolding ff using False by (rule bind_not_Done_snd)
    with assms(1) have "w' = snd p1" by simp
    with acts(1) assms(2) have "new = map Browser acts" by simp
    with acts_no_click have "?click \<notin> set new" by simp
    with assms(3) show ?thesis by contradiction
  next
    case p1_done: True
    with acts have tr1: "trace (snd p1) = trace w @ map Browser pages @ [Browser (CheckRole ''checkbox'')]"
      by simp
    show ?thesis
    proof (cases "clock (snd p1)")
      case Nil
      have "fill_form self booking_url review_time_s w = (Blocked, snd p1)"
        unfolding ff bind_Done [OF p1_done] time_time_Nil [OF Nil]
        by (simp only: bind_def fst_conv snd_conv result.case)
      with assms(1) have "w' = snd p1" by simp
      with acts(1) assms(2) have "new = map Browser acts" by simp
      with acts_no_click have "?click \<notin> set new" by simp
    with assms(3) show ?thesis by contradiction
    next
      case (Cons t0 ts)
      define w2 where "w2 = (snd p1)\<lparr>clock := ts, trace := trace (snd p1) @ [Time t0]\<rparr>"
      define p3 where "p3 = wait_review t0 review_time_s w2"
      from Cons p1_done have ff3: "fill_form self booking_url review_time_s w =
         bind p3 (\<lambda>_ w3.
         bind (browser (ClickButton ''kostenpflichtig buchen'') w3) (\<lambda>_ w4.
         perform [CloseContext, CloseBrowser] (time_sleep 10 w4)))"
        unfolding ff p3_def w2_def bind_Done [OF p1_done] time_time_Cons [OF Cons]
        by (simp only: bind_def [of "(Done t0, _)"] fst_conv snd_conv result.case)
      have "\<exists>ev. trace (snd p3) = trace w2 @ ev \<and> (\<forall>e \<in> set ev. \<forall>a. e \<noteq> Browser a)
              \<and> (fst p3 = Done ()
                   \<longrightarrow> (\<exists>waiting t. ev = waiting @ [Time t] \<and> of_int review_time_s < t - t0))"
        unfolding p3_def by (rule wait_review_trace)
      then obtain ev where ev: "trace (snd p3) = trace w2 @ ev" "\<forall>e \<in> set ev. \<forall>a. e \<noteq> Browser a"
          "fst p3 = Done () \<longrightarrow> (\<exists>waiting t. ev = waiting @ [Time t] \<and> of_int review_time_s < t - t0)"
        by (elim exE conjE) (rule that)
      have tr3: "trace (snd p3) = trace w @ map Browser pages @ [Browser (CheckRole ''checkbox''), Time t0] @ ev"
        using ev(1) tr1 by (simp add: w2_def)
      show ?thesis
      proof (cases "fst p3 = Done ()")
        case False
        have "snd (fill_form self booking_url review_time_s w) = snd p3"
          unfolding ff3 using False by (rule bind_not_Done_snd)
        with assms(1) have "w' = snd p3" by simp
        with tr3 assms(2) have "new = map Browser pages @ [Browser (CheckRole ''checkbox''), Time t0] @ ev"
          by simp
        moreover from ev(2) have "?click \<notin> set ev" by blast
        moreover from no_click have "?click \<notin> set (map Browser pages)" by auto
        ultimately have "?click \<notin> set new" by simp
        with assms(3) show ?thesis by contradiction
      next
        case True
        with ev(3) obtain waiting t where
          wt: "ev = waiting @ [Time t]" "of_int review_time_s < t - t0"
          by blast
        define p4 where "p4 = browser (ClickButton ''kostenpflichtig buchen'') (snd p3)"
        have tr4: "trace (snd p4) = trace (snd p3) @ [?click]"
          unfolding p4_def by (rule browser_trace)
        have "\<exists>after. trace w' = trace (snd p4) @ after"
        proof (cases "fst p4 = Done ()")
          case False
          have "snd (fill_form self booking_url review_time_s w) = snd p4"
            unfolding ff3 bind_Done [OF True] p4_def [symmetric] using False
            by (rule bind_not_Done_snd)
          with assms(1) have "w' = snd p4" by simp
          then show ?thesis by simp
        next
          case p4_done: True
          have "fill_form self booking_url review_time_s w
                  = perform [CloseContext, CloseBrowser] (time_sleep 10 (snd p4))"
            unfolding ff3 bind_Done [OF True] p4_def [symmetric] bind_Done [OF p4_done] ..
          with assms(1) have "w' = snd (perform [CloseContext, CloseBrowser] (time_sleep 10 (snd p4)))"
            by simp
          moreover from perform_trace [of "[CloseContext, CloseBrowser]" "time_sleep 10 (snd p4)"]
          obtain closing where
            "trace (snd (perform [CloseContext, CloseBrowser] (time_sleep 10 (snd p4))))
               = trace (time_sleep 10 (snd p4)) @ map Browser closing"
            by (elim exE conjE) (rule that)
          ultimately show ?thesis
            by (simp add: time_sleep_def)
        qed
        then obtain after where "trace w' = trace (snd p4) @ after" ..
        with tr4 tr3 wt(1) assms(2) have
          new: "new = map Browser pages @ [Browser (CheckRole ''checkbox''), Time t0] @ waiting
                   @ [Time t, ?click] @ after"
          by simp
        from ev(2) wt(1) have "?click \<notin> set waiting" by auto
        moreover from no_click have "?click \<notin> set (map Browser pages)" by auto
        ultimately have "?click \<notin> set (map Browser pages @ waiting)" by simp
        with new wt(2) have
          "new = map Browser pages @ [Browser (CheckRole ''checkbox''), Time t0] @ waiting
                   @ [Time t, ?click] @ after
           \<and> ?click \<notin> set (map Browser pages @ waiting)
           \<and> of_int review_time_s < t - t0"
          by simp
        then show ?thesis
          by - ((rule exI)+, assumption)
      qed
    qed
  qed
qed

lemma fill_form_example:
  "fill_form example_manager (Some ''link-a'') 2 confirm_world =
     (Done (),
      confirm_world\<lparr>clock := [],
        trace :=
          [Browser Launch, Browser NewContext, Browser NewPage, Browser (Goto (Some ''link-a'')),
           Browser (CheckRole ''radio''),
           Browser (ClickButton ''weiter zur Buchung''),
           Browser (FillPersonalDetails (person1 example_manager) None),
           Browser (FillPersonalDetails (person2 example_manager) (Some 2)),
           Browser (FillInput ''iban'' ''DE00''), Browser (FillInput ''bic'' ''BANK''),
           Browser (CheckInput ''BuchBed''), Browser (ClickButton ''verbindlich anmelden''),
           Browser (CheckRole ''checkbox''), Time 100, Time 101, Sleep 1, Time 102, Sleep 1,
           Time 103, Browser (ClickButton ''kostenpflichtig buchen''), Sleep 10,
           Browser CloseContext, Browser CloseBrowser]\<rparr>)"
  by (simp add: fill_form_def bind_def browser_def time_time_def time_sleep_def
        wait_review_step confirm_world_def example_manager_def)

theorem fill_form_review_window_witness:
  "\<exists>before t0 waiting t after.
     trace (snd (fill_form example_manager (Some ''link-a'') 2 confirm_world))
       = before @ [Browser (CheckRole ''checkbox''), Time t0] @ waiting
           @ [Time t, Browser (ClickButton ''kostenpflichtig buchen'')] @ after
     \<and> Browser (ClickButton ''kostenpflichtig buchen'') \<notin> set (before @ waiting)
     \<and> of_int 2 < t - t0"
proof (rule fill_form_review_window)
  show "fill_form example_manager (Some ''link-a'') 2 confirm_world
          = (Done (), snd (fill_form example_manager (Some ''link-a'') 2 confirm_world))"
    by (simp add: fill_form_example)
  show "trace (snd (fill_form example_manager (Some ''link-a'') 2 confirm_world))
          = trace confirm_world
              @ trace (snd (fill_form example_manager (Some ''link-a'') 2 confirm_world))"
    by (simp add: confirm_world_def)
  show "Browser (ClickButton ''kostenpflichtig buchen'')
          \<in> set (trace (snd (fill_form example_manager (Some ''link-a'') 2 confirm_world)))"
    by (simp add: fill_form_example)
qed

section \<open>Properties of the monitor loop\<close>

lemma bind_unit_not_Done:
  fixes rw :: "unit result \<times> world"
  shows "fst rw \<noteq> Done () \<Longrightarrow> bind rw f = rw"
  by (cases rw, cases "fst rw") (auto simp add: bind_def)

lemma bind_pair [simp]:
  "bind (Done x, w) f = f x w"
  "bind (Raised e, w) f = (Raised e, w)"
  "bind (Blocked, w) f = (Blocked, w)"
  by (simp_all add: bind_def)

lemma bind_weak_cong: "rw = rw' \<Longrightarrow> bind rw f = bind rw' f"
  by simp

lemma monitor_slots_step:
  "monitor_slots self url day start_time refresh_interval_s review_time_s w =
     bind (attempt_booking self url day start_time review_time_s w) (\<lambda>_ w1.
     bind (time_time w1) (\<lambda>t0 w2.
     bind (wait_refresh t0 refresh_interval_s w2) (\<lambda>_ w3.
     monitor_slots self url day start_time refresh_interval_s review_time_s w3)))"
proof -
  obtain r1 w1 where a: "attempt_booking self url day start_time review_time_s w = (r1, w1)"
    by (cases "attempt_booking self url day start_time review_time_s w")
  obtain r2 w2 where t: "time_time w1 = (r2, w2)"
    by (cases "time_time w1")
  show ?thesis
  proof (cases r1)
    case (Done u)
    show ?thesis
    proof (cases r2)
      case r2: (Done t0)
      obtain r3 w3 where p: "wait_refresh t0 refresh_interval_s w2 = (r3, w3)"
        by (cases "wait_refresh t0 refresh_interval_s w2")
      from Done r2 a t p show ?thesis
        by (subst monitor_slots.simps) (cases r3; simp)
    next
      case (Raised e)
      with Done a t show ?thesis
        by (subst monitor_slots.simps) simp
    next
      case Blocked
      with Done a t show ?thesis
        by (subst monitor_slots.simps) simp
    qed
  next
    case (Raised e)
    with a show ?thesis
      by (subst monitor_slots.simps) simp
  next
    case Blocked
    with a show ?thesis
      by (subst monitor_slots.simps) simp
  qed
qed

lemma monitor_slots_not_Done:
  assumes "fst (attempt_booking self url day h rv w) \<noteq> Done ()"
  shows "monitor_slots self url day h rf rv w = attempt_booking self url day h rv w"
  by (subst monitor_slots_step) (rule bind_unit_not_Done [OF assms])

subsection \<open>Counting the calls of the booking flow\<close>

lemma launches_append [simp]: "launches (a @ b) = launches a + launches b"
  by (simp add: launches_def)

lemma launches_Nil [simp]: "launches [] = 0"
  by (simp add: launches_def)

lemma launches_Cons [simp]:
  "launches (e # tr) = (if e = Browser Launch then 1 else 0) + launches tr"
  by (simp add: launches_def)

lemma bind_launches:
  assumes "\<And>x w'. launches (trace (snd (f x w'))) = launches (trace w')"
  shows "launches (trace (snd (bind rw f))) = launches (trace (snd rw))"
  using assms by (simp add: bind_def split: result.splits)

lemma browser_launches:
  "launches (trace (snd (browser a w))) = launches (trace w) + (if a = Launch then 1 else 0)"
  by (simp add: browser_def Let_def)

lemma perform_launches:
  "Launch \<notin> set as \<Longrightarrow> launches (trace (snd (perform as w))) = launches (trace w)"
  by (induction as arbitrary: w) (auto simp add: bind_launches browser_launches)

lemma time_time_launches: "launches (trace (snd (time_time w))) = launches (trace w)"
  by (simp add: time_time_def split: list.splits)

lemma wait_review_launches: "launches (trace (snd (wait_review t0 r w))) = launches (trace w)"
proof -
  obtain ev where "trace (snd (wait_review t0 r w)) = trace w @ ev"
    and "\<forall>e \<in> set ev. \<forall>a. e \<noteq> Browser a"
    using wait_review_trace [of t0 r w] by (elim exE conjE)
  moreover from this(2) have "launches ev = 0"
    by (simp add: launches_def filter_empty_conv)
  ultimately show ?thesis by simp
qed

lemma wait_refresh_launches: "launches (trace (snd (wait_refresh t0 r w))) = launches (trace w)"
proof (induction t0 r w rule: wait_refresh.induct)
  case (1 t0 r w)
  show ?case
  proof (cases "clock w")
    case Nil
    then show ?thesis
      by (subst wait_refresh_step) simp
  next
    case (Cons t ts)
    then show ?thesis
      using "1" [of "Done t" "w\<lparr>clock := ts, trace := trace w @ [Time t]\<rparr>" t "t - t0"
                    "of_int r - (t - t0)"]
      by (subst wait_refresh_step) (simp add: time_time_def time_sleep_def)
  qed
qed

lemma fill_form_launches:
  "launches (trace (snd (fill_form self u r w))) = launches (trace w) + 1"
  unfolding fill_form_def perform.simps(2) [of Launch]
  by (simp add: bind_launches perform_launches time_time_launches wait_review_launches
        browser_launches time_sleep_def del: perform.simps bind_pair)


lemma attempt_booking_effect:
  assumes "attempt_booking self url day h rv w = (r1, w1)"
  shows "(responses w = [] \<and> r1 = Blocked \<and> w1 = w)
         \<or> (\<exists>reply. responses w = reply # responses w1
               \<and> launches (trace w1) = launches (trace w) + (if resolves day h reply then 1 else 0)
               \<and> (r1 = Done () \<longrightarrow> resolves day h reply))"
proof (cases "responses w")
  case Nil
  with assms show ?thesis
    by (simp add: attempt_booking_def fetch_available_slots_def requests_get_def)
next
  case (Cons reply rest)
  define wg where "wg = w\<lparr>responses := rest, trace := trace w @ [Get url]\<rparr>"
  have wg: "responses wg = rest" "launches (trace wg) = launches (trace w)"
    by (simp_all add: wg_def)
  show ?thesis
  proof (cases "resolves day h reply")
    case False
    with Cons assms have "w1 = wg" "r1 \<noteq> Done ()"
      by (auto simp add: attempt_booking_def fetch_available_slots_def requests_get_def
            resolves_def wg_def split: sum.splits)
    with Cons wg False show ?thesis by simp
  next
    case True
    then obtain day_slots booking_url where
      "parse_response reply = Inr day_slots"
      "fst (get_booking_link day_slots day h) = Inr booking_url"
      by (auto simp add: resolves_def split: sum.splits)
    with Cons assms have "fill_form self booking_url rv wg = (r1, w1)"
      by (simp add: attempt_booking_def fetch_available_slots_def requests_get_def wg_def)
    then have "w1 = snd (fill_form self booking_url rv wg)"
      by simp
    with wg have "responses w1 = rest" "launches (trace w1) = launches (trace w) + 1"
      by (simp_all add: fill_form_responses fill_form_launches)
    with Cons True show ?thesis by simp
  qed
qed

lemma monitor_slots_invocations_aux:
  "fst (monitor_slots self url day h rf rv w) \<noteq> Done ()
   \<and> (\<exists>polled. responses w = polled @ responses (snd (monitor_slots self url day h rf rv w))
         \<and> launches (trace (snd (monitor_slots self url day h rf rv w)))
             = launches (trace w) + length (filter (resolves day h) polled))"
proof (induction self url day h rf rv w rule: monitor_slots.induct)
  case (1 self url day h rf rv w)
  let ?m = "monitor_slots self url day h rf rv"
  obtain r1 w1 where a: "attempt_booking self url day h rv w = (r1, w1)"
    by (cases "attempt_booking self url day h rv w")
  note eff = attempt_booking_effect [OF a]
  show ?case
  proof (cases "r1 = Done ()")
    case False
    with a have m: "?m w = (r1, w1)"
      by (simp add: monitor_slots_not_Done)
    from eff show ?thesis
    proof
      assume "responses w = [] \<and> r1 = Blocked \<and> w1 = w"
      with m show ?thesis by simp
    next
      assume "\<exists>reply. responses w = reply # responses w1
               \<and> launches (trace w1) = launches (trace w) + (if resolves day h reply then 1 else 0)
               \<and> (r1 = Done () \<longrightarrow> resolves day h reply)"
      then obtain reply where "responses w = [reply] @ responses w1"
        "launches (trace w1) = launches (trace w) + length (filter (resolves day h) [reply])"
        by auto
      with m False show ?thesis
        by (simp only: fst_conv snd_conv) blast
    qed
  next
    case r1: True
    with eff obtain reply where reply: "responses w = reply # responses w1"
        "launches (trace w1) = launches (trace w) + 1" "resolves day h reply"
      by auto
    obtain r2 w2 where t: "time_time w1 = (r2, w2)"
      by (cases "time_time w1")
    then have w2: "responses w2 = responses w1" "launches (trace w2) = launches (trace w1)"
      using time_time_responses [of w1] time_time_launches [of w1] by simp_all
    have one: "responses w = [reply] @ responses w2"
      "launches (trace w2) = launches (trace w) + length (filter (resolves day h) [reply])"
      using reply w2 by simp_all
    show ?thesis
    proof (cases r2)
      case (Raised e)
      with t r1 a have "?m w = (Raised e, w2)"
        by (simp add: monitor_slots_step [of self url day h rf rv w])
      with one show ?thesis
        by (simp only: fst_conv snd_conv) blast
    next
      case Blocked
      with t r1 a have "?m w = (Blocked, w2)"
        by (simp add: monitor_slots_step [of self url day h rf rv w])
      with one show ?thesis
        by (simp only: fst_conv snd_conv) blast
    next
      case r2: (Done t0)
      obtain r3 w3 where p: "wait_refresh t0 rf w2 = (r3, w3)"
        by (cases "wait_refresh t0 rf w2")
      then have w3: "responses w3 = responses w2" "launches (trace w3) = launches (trace w2)"
        using wait_refresh_responses [of t0 rf w2] wait_refresh_launches [of t0 rf w2] by simp_all
      show ?thesis
      proof (cases "r3 = Done ()")
        case False
        with p r2 t r1 a have "?m w = (r3, w3)"
          by (cases r3) (simp_all add: monitor_slots_step [of self url day h rf rv w])
        with one w3 False show ?thesis
          by (simp only: fst_conv snd_conv) (metis (no_types))
      next
        case True
        with p r2 t r1 a have m: "?m w = ?m w3"
          by (simp add: monitor_slots_step [of self url day h rf rv w])
        from True p r2 t r1 a have
          "fst (?m w3) \<noteq> Done ()
           \<and> (\<exists>polled. responses w3 = polled @ responses (snd (?m w3))
                 \<and> launches (trace (snd (?m w3)))
                     = launches (trace w3) + length (filter (resolves day h) polled))"
          by (intro "1.IH" [of r1 w1 "()" r2 w2 t0 r3 w3 "()"]) simp_all
        then obtain polled where
          "fst (?m w3) \<noteq> Done ()" "responses w3 = polled @ responses (snd (?m w3))"
          "launches (trace (snd (?m w3))) = launches (trace w3) + length (filter (resolves day h) polled)"
          by (elim exE conjE)
        with one w3 reply(3) have
          "fst (?m w3) \<noteq> Done ()
           \<and> responses w = (reply # polled) @ responses (snd (?m w3))
           \<and> launches (trace (snd (?m w3)))
               = launches (trace w) + length (filter (resolves day h) (reply # polled))"
          by simp
        then show ?thesis
          unfolding m by blast
      qed
    qed
  qed
qed

subsection \<open>Runs on given replies\<close>

lemma generate_time_slot_16: "generate_time_slot 16 = ''16:00-17:00''"
  by (simp add: generate_time_slot_def format_02d_def decimal.simps digit_char_def)

lemma parse_response_example: "parse_response example_reply = Inr example_slots"
  by (simp add: parse_response_def example_reply_def parse_rows_example example_slots_def)

lemma get_booking_link_example:
  "fst (get_booking_link example_slots ''Montag'' 15) = Inr (Some ''link-a'')"
  "fst (get_booking_link example_slots ''Montag'' 16)
     = Inl (ValueError (''No slot available on Montag at 16:00-17:00'' @ [CHR 0x0A]))"
  by (simp_all add: example_slots_def get_booking_link_def first_pitch_of_def slots_getitem_def
        getitem_def next_iter_def slot_unavailable_def generate_time_slot_15 generate_time_slot_16)

lemmas run_simps =
  monitor_slots_step attempt_booking_def fetch_available_slots_def requests_get_def
  fill_form_def browser_def time_time_def time_sleep_def wait_review_step wait_refresh_step
  parse_response_example get_booking_link_example poll_world_def

text \<open>
  Claim C1. The claim says that a poll which fails with a page that cannot be reached,
  a schedule that cannot be parsed or a slot that is not there is followed by the wait
  and a new poll. \<^verbatim>\<open>monitor_slots\<close> and \<^verbatim>\<open>attempt_booking\<close> catch nothing: in each of
  the three cases the run ends with the error after the one request, without a reading
  of the clock and with the second reply never asked for.
\<close>

theorem monitor_slots_stops_at_first_failure:
  "monitor_slots example_manager ''url'' ''Montag'' 15 60 5
      (poll_world [\<lparr>status_code = 500, table_body = Some example_rows\<rparr>, example_reply])
     = (Raised ConnectionError,
        (poll_world [])\<lparr>responses := [example_reply], trace := [Get ''url'']\<rparr>)
   \<and> monitor_slots example_manager ''url'' ''Montag'' 15 60 5
      (poll_world [\<lparr>status_code = 200, table_body = None\<rparr>, example_reply])
     = (Raised (ValueError ''Could not find table containing time slots.''),
        (poll_world [])\<lparr>responses := [example_reply], trace := [Get ''url'']\<rparr>)
   \<and> monitor_slots example_manager ''url'' ''Montag'' 16 60 5
      (poll_world [example_reply, example_reply])
     = (Raised (ValueError (''No slot available on Montag at 16:00-17:00'' @ [CHR 0x0A])),
        (poll_world [])\<lparr>responses := [example_reply], trace := [Get ''url'']\<rparr>)"
  by (simp add: run_simps
        parse_response_def [of "\<lparr>status_code = 500, table_body = Some example_rows\<rparr>"]
        parse_response_def [of "\<lparr>status_code = 200, table_body = None\<rparr>"]
        cong: bind_weak_cong)

text \<open>
  How often a run calls \<^verbatim>\<open>fill_form\<close>: once for every reply it has polled that
  resolves. And \<^verbatim>\<open>monitor_slots\<close> never returns: a run ends with an error, or is
  still going on when the replies or the clock readings are used up.
\<close>

lemma monitor_slots_invocations:
  assumes "monitor_slots self url day start_time refresh_interval_s review_time_s w = (r, w')"
  shows "r \<noteq> Done ()
         \<and> (\<exists>polled. responses w = polled @ responses w'
               \<and> launches (trace w') = launches (trace w) + length (filter (resolves day start_time) polled))"
  using monitor_slots_invocations_aux [of self url day start_time refresh_interval_s review_time_s w]
    assms
  by simp

lemma monitor_slots_twice:
  "monitor_slots example_manager ''url'' ''Montag'' 15 1 0
      (poll_world [example_reply, example_reply, \<lparr>status_code = 500, table_body = None\<rparr>])
   = (Raised ConnectionError,
      \<lparr>responses = [], clock = [], site = (\<lambda>_. True),
         trace =
           [Get ''url'',
            Browser Launch, Browser NewContext, Browser NewPage, Browser (Goto (Some ''link-a'')),
            Browser (CheckRole ''radio''), Browser (ClickButton ''weiter zur Buchung''),
            Browser (FillPersonalDetails (person1 example_manager) None),
            Browser (FillPersonalDetails (person2 example_manager) (Some 2)),
            Browser (FillInput ''iban'' ''DE00''), Browser (FillInput ''bic'' ''BANK''),
            Browser (CheckInput ''BuchBed''), Browser (ClickButton ''verbindlich anmelden''),
            Browser (CheckRole ''checkbox''), Time 0, Time 1,
            Browser (ClickButton ''kostenpflichtig buchen''), Sleep 10,
            Browser CloseContext, Browser CloseBrowser,
            Time 1, Time 2,
            Get ''url'',
            Browser Launch, Browser NewContext, Browser NewPage, Browser (Goto (Some ''link-a'')),
            Browser (CheckRole ''radio''), Browser (ClickButton ''weiter zur Buchung''),
            Browser (FillPersonalDetails (person1 example_manager) None),
            Browser (FillPersonalDetails (person2 example_manager) (Some 2)),
            Browser (FillInput ''iban'' ''DE00''), Browser (FillInput ''bic'' ''BANK''),
            Browser (CheckInput ''BuchBed''), Browser (ClickButton ''verbindlich anmelden''),
            Browser (CheckRole ''checkbox''), Time 2, Time 3,
            Browser (ClickButton ''kostenpflichtig buchen''), Sleep 10,
            Browser CloseContext, Browser CloseBrowser,
            Time 3, Time 4,
            Get ''url'']\<rparr>)"
  by (simp add: run_simps parse_response_def [of "\<lparr>status_code = 500, table_body = None\<rparr>"]
        example_manager_def cong: bind_weak_cong)

lemma monitor_slots_invocations_example:
  "fst (monitor_slots example_manager ''url'' ''Montag'' 15 1 0
      (poll_world [example_reply, example_reply, \<lparr>status_code = 500, table_body = None\<rparr>]))
     = Raised ConnectionError
   \<and> length (filter (resolves ''Montag'' 15)
        [example_reply, example_reply, \<lparr>status_code = 500, table_body = None\<rparr>]) = 2
   \<and> launches (trace (snd (monitor_slots example_manager ''url'' ''Montag'' 15 1 0
      (poll_world [example_reply, example_reply, \<lparr>status_code = 500, table_body = None\<rparr>])))) = 2"
  using monitor_slots_invocations [OF monitor_slots_twice]
  by (simp add: monitor_slots_twice resolves_def parse_response_example get_booking_link_example
        parse_response_def [of "\<lparr>status_code = 500, table_body = None\<rparr>"])

text \<open>
  Claim C2. The claim says that a run calls \<^verbatim>\<open>fill_form\<close> at most once and that the
  loop ends after the first booking. \<^verbatim>\<open>monitor_slots\<close> has no \<^verbatim>\<open>break\<close> and no
  \<^verbatim>\<open>return\<close>: when \<^verbatim>\<open>fill_form\<close> has returned, the loop waits and polls again. In
  the run above the slot is on offer at two polls in a row, and the run launches the
  browser twice and clicks \<open>kostenpflichtig buchen\<close> twice; it ends only because the
  third poll fails.
\<close>

theorem monitor_slots_books_twice:
  "launches (trace (snd (monitor_slots example_manager ''url'' ''Montag'' 15 1 0
      (poll_world [example_reply, example_reply, \<lparr>status_code = 500, table_body = None\<rparr>])))) = 2
   \<and> length (filter (\<lambda>e. e = Browser (ClickButton ''kostenpflichtig buchen''))
        (trace (snd (monitor_slots example_manager ''url'' ''Montag'' 15 1 0
      (poll_world [example_reply, example_reply, \<lparr>status_code = 500, table_body = None\<rparr>]))))) = 2"
  by (simp add: monitor_slots_twice)

end
